theory Spec2Isabelle
  imports Complex_Main
begin

section \<open>Motion-controller protocol driver (SMC100C.cpp)\<close>

subsection \<open>Exceptions and string primitives of the C++ library\<close>

text \<open>
  The exceptions the modelled code can raise. \<open>out_of_range\<close> is what
  \<open>std::string::substr\<close> throws when the start offset lies beyond the end of the string.
\<close>

datatype cxx_exception = out_of_range | invalid_argument

text \<open>
  \<open>s.substr(pos, n)\<close>: throws when \<open>pos > s.size()\<close>; otherwise the at most
  \<open>n\<close> characters from \<open>pos\<close> on (an empty string when \<open>pos = s.size()\<close>).
\<close>

definition substr :: "string \<Rightarrow> nat \<Rightarrow> nat \<Rightarrow> cxx_exception + string" where
  "substr s pos n = (if pos > length s then Inl out_of_range else Inr (take n (drop pos s)))"

definition CR :: char where "CR = CHR 0x0D"
definition LF :: char where "LF = CHR 0x0A"

subsection \<open>The status table and the status decode\<close>

datatype StatusType =
  Unknown | Error | Config | NoReference | Homing | Moving | Ready | Disabled | Jogging

text \<open>\<open>SMC100C::StatusLibrary\<close>, in the order of the source.\<close>

definition StatusLibrary :: "(string \<times> StatusType) list" where
  "StatusLibrary =
    [(''0A'', NoReference), (''0B'', NoReference), (''0C'', NoReference), (''0D'', NoReference),
     (''0E'', NoReference), (''0F'', NoReference), (''10'', NoReference), (''11'', NoReference),
     (''14'', Config),
     (''1E'', Homing), (''1F'', Homing),
     (''28'', Moving),
     (''32'', Ready), (''33'', Ready), (''34'', Ready), (''35'', Ready),
     (''3C'', Disabled), (''3D'', Disabled), (''3E'', Disabled),
     (''46'', Jogging), (''47'', Jogging)]"

text \<open>The \<open>switch\<close> inside the table scan of \<open>GetCurrentStatus\<close>.\<close>

fun status_text :: "StatusType \<Rightarrow> string" where
  "status_text Config = ''Configuration''"
| "status_text NoReference = ''No Reference''"
| "status_text Homing = ''Homing''"
| "status_text Moving = ''Moving''"
| "status_text Ready = ''Ready''"
| "status_text Disabled = ''Disabled''"
| "status_text Jogging = ''Jogging''"
| "status_text Error = ''Error''"
| "status_text Unknown = ''Unknown''"

text \<open>
  The \<open>for\<close> loop over the table: the first entry whose code equals the token decides;
  when no entry matches, the text \<open>Unknown Status Code: \<close> followed by the token is returned.
\<close>

fun scan_status :: "(string \<times> StatusType) list \<Rightarrow> string \<Rightarrow> string" where
  "scan_status [] statusCode = ''Unknown Status Code: '' @ statusCode"
| "scan_status ((code, ty) # rest) statusCode =
     (if statusCode = code then status_text ty else scan_status rest statusCode)"

text \<open>
  \<open>SerialRead\<close> (SMC100C.h): the received bytes when \<open>readString\<close> reports a
  positive byte count, the text \<open>Timeout\<close> on 0, the text \<open>Error\<close> otherwise (buffer
  full). The function returns a \<open>char*\<close>, which its callers turn into a
  \<open>std::string\<close>: the text ends before the first NUL byte.
\<close>

definition SerialRead :: "int \<Rightarrow> string \<Rightarrow> string" where
  "SerialRead readStatus receivedString =
     (if readStatus > 0 then takeWhile (\<lambda>c. c \<noteq> CHR 0x00) receivedString
      else if readStatus = 0 then ''Timeout''
      else ''Error'')"

text \<open>
  \<open>GetCurrentStatus\<close>, as a function of the text \<open>SerialRead\<close> hands back: the token is
  \<open>response.substr(7, 2)\<close>, which throws on a response shorter than 7 characters.
\<close>

definition GetCurrentStatus :: "string \<Rightarrow> cxx_exception + string" where
  "GetCurrentStatus response =
     (case substr response 7 2 of
        Inl e \<Rightarrow> Inl e
      | Inr statusCode \<Rightarrow> Inr (scan_status StatusLibrary statusCode))"


subsection \<open>The command table and the command encoder\<close>

text \<open>
  The enumerations of SMC100C.h. Three of them have a member called \<open>None\<close> in the
  source; here these are \<open>CmdNone\<close>, \<open>ParamNone\<close> and \<open>GsNone\<close>.
\<close>

datatype CommandType =
    CmdNone
  | Acceleration
  | BacklashComp
  | HysterisisComp
  | DriverVoltage
  | KdLowPassFilterCutOff
  | FollowingErrorLim
  | FrictionComp
  | HomeSearchType
  | StageIdentifier
  | LeaveJoggingState
  | KeypadEnable
  | JerkTime
  | DerivativeGain
  | IntegralGain
  | ProportionalGain
  | VelocityFeedForward
  | Enable
  | HomeSearchVelocity
  | HomeSearch
  | HomeSearchTimeout
  | MoveAbs
  | MoveRel
  | MoveEstimate
  | Configure
  | Analog
  | TTLInputVal
  | Reset
  | RS485Adress
  | TTLOutputVal
  | ControlLoopState
  | NegativeSoftwareLim
  | PositiveSoftwareLim
  | StopMotion
  | EncoderIncrementVal
  | CommandErrorString
  | LastCommandErr
  | PositionAsSet
  | PositionReal
  | ErrorStatus
  | Velocity
  | BaseVelocity
  | ControllerRevisionInfo
  | AllConfigParam
  | ESPStageConfig

datatype CommandParameterType = ParamNone | ParamInt | ParamFloat

datatype CommandGetSetType = GsNone | Get | Set | GetSet | GetAlways

record CommandStruct =
  Command :: CommandType
  CommandChar :: string
  SendType :: CommandParameterType
  GetSetType :: CommandGetSetType

text \<open>
  \<open>CommandEntry\<close>: the source keeps a pointer into the command table; the model keeps
  the table row it points to (field \<open>CommandPtr\<close>, \<open>Command\<close> in the source).
\<close>

record CommandEntry =
  CommandPtr :: CommandStruct
  GetOrSet :: CommandGetSetType
  Parameter :: real

text \<open>\<open>static_cast<int>(Type)\<close>: the position of the enumerator in its declaration.\<close>

fun command_index :: "CommandType \<Rightarrow> nat" where
  "command_index CmdNone = 0"
| "command_index Acceleration = 1"
| "command_index BacklashComp = 2"
| "command_index HysterisisComp = 3"
| "command_index DriverVoltage = 4"
| "command_index KdLowPassFilterCutOff = 5"
| "command_index FollowingErrorLim = 6"
| "command_index FrictionComp = 7"
| "command_index HomeSearchType = 8"
| "command_index StageIdentifier = 9"
| "command_index LeaveJoggingState = 10"
| "command_index KeypadEnable = 11"
| "command_index JerkTime = 12"
| "command_index DerivativeGain = 13"
| "command_index IntegralGain = 14"
| "command_index ProportionalGain = 15"
| "command_index VelocityFeedForward = 16"
| "command_index Enable = 17"
| "command_index HomeSearchVelocity = 18"
| "command_index HomeSearch = 19"
| "command_index HomeSearchTimeout = 20"
| "command_index MoveAbs = 21"
| "command_index MoveRel = 22"
| "command_index MoveEstimate = 23"
| "command_index Configure = 24"
| "command_index Analog = 25"
| "command_index TTLInputVal = 26"
| "command_index Reset = 27"
| "command_index RS485Adress = 28"
| "command_index TTLOutputVal = 29"
| "command_index ControlLoopState = 30"
| "command_index NegativeSoftwareLim = 31"
| "command_index PositiveSoftwareLim = 32"
| "command_index StopMotion = 33"
| "command_index EncoderIncrementVal = 34"
| "command_index CommandErrorString = 35"
| "command_index LastCommandErr = 36"
| "command_index PositionAsSet = 37"
| "command_index PositionReal = 38"
| "command_index ErrorStatus = 39"
| "command_index Velocity = 40"
| "command_index BaseVelocity = 41"
| "command_index ControllerRevisionInfo = 42"
| "command_index AllConfigParam = 43"
| "command_index ESPStageConfig = 44"

text \<open>\<open>SMC100C::CommandLibrary\<close>, row by row as in the source.\<close>

definition CommandLibrary :: "CommandStruct list" where
  "CommandLibrary =
    [\<lparr>Command = CmdNone, CommandChar = ''  '', SendType = ParamNone, GetSetType = GsNone\<rparr>,
     \<lparr>Command = Acceleration, CommandChar = ''AC'', SendType = ParamFloat, GetSetType = GetSet\<rparr>,
     \<lparr>Command = BacklashComp, CommandChar = ''BA'', SendType = ParamFloat, GetSetType = GetSet\<rparr>,
     \<lparr>Command = HysterisisComp, CommandChar = ''BH'', SendType = ParamFloat, GetSetType = GetSet\<rparr>,
     \<lparr>Command = DriverVoltage, CommandChar = ''DV'', SendType = ParamFloat, GetSetType = GetSet\<rparr>,
     \<lparr>Command = KdLowPassFilterCutOff, CommandChar = ''FD'', SendType = ParamFloat, GetSetType = GetSet\<rparr>,
     \<lparr>Command = FollowingErrorLim, CommandChar = ''FE'', SendType = ParamFloat, GetSetType = GetSet\<rparr>,
     \<lparr>Command = FrictionComp, CommandChar = ''FF'', SendType = ParamFloat, GetSetType = GetSet\<rparr>,
     \<lparr>Command = HomeSearchType, CommandChar = ''HT'', SendType = ParamInt, GetSetType = GetSet\<rparr>,
     \<lparr>Command = StageIdentifier, CommandChar = ''ID'', SendType = ParamFloat, GetSetType = GetSet\<rparr>,
     \<lparr>Command = LeaveJoggingState, CommandChar = ''JD'', SendType = ParamNone, GetSetType = GsNone\<rparr>,
     \<lparr>Command = KeypadEnable, CommandChar = ''JM'', SendType = ParamInt, GetSetType = GetSet\<rparr>,
     \<lparr>Command = JerkTime, CommandChar = ''JR'', SendType = ParamFloat, GetSetType = GetSet\<rparr>,
     \<lparr>Command = DerivativeGain, CommandChar = ''KD'', SendType = ParamFloat, GetSetType = GetSet\<rparr>,
     \<lparr>Command = IntegralGain, CommandChar = ''KI'', SendType = ParamFloat, GetSetType = GetSet\<rparr>,
     \<lparr>Command = ProportionalGain, CommandChar = ''KP'', SendType = ParamFloat, GetSetType = GetSet\<rparr>,
     \<lparr>Command = VelocityFeedForward, CommandChar = ''KV'', SendType = ParamFloat, GetSetType = GetSet\<rparr>,
     \<lparr>Command = Enable, CommandChar = ''MM'', SendType = ParamInt, GetSetType = GsNone\<rparr>,
     \<lparr>Command = HomeSearchVelocity, CommandChar = ''OH'', SendType = ParamFloat, GetSetType = GetSet\<rparr>,
     \<lparr>Command = HomeSearch, CommandChar = ''OR'', SendType = ParamNone, GetSetType = GsNone\<rparr>,
     \<lparr>Command = HomeSearchTimeout, CommandChar = ''OT'', SendType = ParamFloat, GetSetType = GetSet\<rparr>,
     \<lparr>Command = MoveAbs, CommandChar = ''PA'', SendType = ParamFloat, GetSetType = GetSet\<rparr>,
     \<lparr>Command = MoveRel, CommandChar = ''PR'', SendType = ParamFloat, GetSetType = GetSet\<rparr>,
     \<lparr>Command = MoveEstimate, CommandChar = ''PT'', SendType = ParamFloat, GetSetType = GetAlways\<rparr>,
     \<lparr>Command = Configure, CommandChar = ''PW'', SendType = ParamInt, GetSetType = GetSet\<rparr>,
     \<lparr>Command = Analog, CommandChar = ''RA'', SendType = ParamNone, GetSetType = GetAlways\<rparr>,
     \<lparr>Command = TTLInputVal, CommandChar = ''RB'', SendType = ParamNone, GetSetType = GetAlways\<rparr>,
     \<lparr>Command = Reset, CommandChar = ''RS'', SendType = ParamNone, GetSetType = GsNone\<rparr>,
     \<lparr>Command = RS485Adress, CommandChar = ''SA'', SendType = ParamInt, GetSetType = GetSet\<rparr>,
     \<lparr>Command = TTLOutputVal, CommandChar = ''SB'', SendType = ParamInt, GetSetType = GetSet\<rparr>,
     \<lparr>Command = ControlLoopState, CommandChar = ''SC'', SendType = ParamInt, GetSetType = GetSet\<rparr>,
     \<lparr>Command = NegativeSoftwareLim, CommandChar = ''SL'', SendType = ParamFloat, GetSetType = GetSet\<rparr>,
     \<lparr>Command = PositiveSoftwareLim, CommandChar = ''SR'', SendType = ParamFloat, GetSetType = GetSet\<rparr>,
     \<lparr>Command = StopMotion, CommandChar = ''ST'', SendType = ParamNone, GetSetType = GsNone\<rparr>,
     \<lparr>Command = EncoderIncrementVal, CommandChar = ''SU'', SendType = ParamFloat, GetSetType = GetSet\<rparr>,
     \<lparr>Command = CommandErrorString, CommandChar = ''TB'', SendType = ParamNone, GetSetType = GetAlways\<rparr>,
     \<lparr>Command = LastCommandErr, CommandChar = ''TE'', SendType = ParamNone, GetSetType = GetAlways\<rparr>,
     \<lparr>Command = PositionAsSet, CommandChar = ''TH'', SendType = ParamNone, GetSetType = GetAlways\<rparr>,
     \<lparr>Command = PositionReal, CommandChar = ''TP'', SendType = ParamNone, GetSetType = GetAlways\<rparr>,
     \<lparr>Command = ErrorStatus, CommandChar = ''TS'', SendType = ParamNone, GetSetType = GetAlways\<rparr>,
     \<lparr>Command = Velocity, CommandChar = ''VA'', SendType = ParamFloat, GetSetType = GetSet\<rparr>,
     \<lparr>Command = BaseVelocity, CommandChar = ''Vb'', SendType = ParamFloat, GetSetType = GetSet\<rparr>,
     \<lparr>Command = ControllerRevisionInfo, CommandChar = ''VE'', SendType = ParamNone, GetSetType = GetAlways\<rparr>,
     \<lparr>Command = AllConfigParam, CommandChar = ''ZT'', SendType = ParamNone, GetSetType = GetAlways\<rparr>,
     \<lparr>Command = ESPStageConfig, CommandChar = ''ZX'', SendType = ParamNone, GetSetType = GetSet\<rparr>]"

definition ControllerAdress :: string where
  "ControllerAdress = ''1''"

text \<open>
  \<open>std::to_string\<close> of the C++ library, which the encoder calls for the parameter text:
  decimal digits for an \<open>int\<close>, and the \<open>%f\<close> rendering (six decimals) for a
  \<open>float\<close>. The float is taken as the real number it denotes; \<open>static_cast<int>\<close>
  truncates towards zero. For a value that does not fit an \<open>int\<close> the cast has no
  defined behaviour in C++; the model takes what the conversion instruction of x86-64
  delivers then, the least \<open>int\<close>.
\<close>

definition INT_MAX :: int where "INT_MAX = 2147483647"
definition INT_MIN :: int where "INT_MIN = - 2147483648"

function dec_digits :: "nat \<Rightarrow> string" where
  "dec_digits n =
     (if n < 10 then [''0123456789'' ! n]
      else dec_digits (n div 10) @ [''0123456789'' ! (n mod 10)])"
  by pat_completeness auto
termination
  by (relation "measure id") auto

declare dec_digits.simps [simp del]

definition to_string_int :: "int \<Rightarrow> string" where
  "to_string_int i = (if i < 0 then ''-'' else []) @ dec_digits (nat \<bar>i\<bar>)"

definition static_cast_int :: "real \<Rightarrow> int" where
  "static_cast_int x =
     (let i = (if 0 \<le> x then \<lfloor>x\<rfloor> else \<lceil>x\<rceil>)
      in if INT_MIN \<le> i \<and> i \<le> INT_MAX then i else INT_MIN)"

definition round_half_even :: "real \<Rightarrow> int" where
  "round_half_even y =
     (let f = \<lfloor>y\<rfloor>; d = y - of_int f
      in if d < 1 / 2 then f
         else if 1 / 2 < d then f + 1
         else if even f then f else f + 1)"

definition to_string_float :: "real \<Rightarrow> string" where
  "to_string_float x =
     (let m = nat (round_half_even (\<bar>x\<bar> * 1000000));
          frac = dec_digits (m mod 1000000)
      in (if x < 0 then ''-'' else []) @ dec_digits (m div 1000000) @ ''.''
         @ replicate (6 - length frac) (CHR ''0'') @ frac)"

text \<open>
  \<open>SetCommand\<close> stores the table row of the command type, the parameter and the intent.
\<close>

definition SetCommand :: "CommandType \<Rightarrow> real \<Rightarrow> CommandGetSetType \<Rightarrow> CommandEntry" where
  "SetCommand Type Par GetOrSetArg =
     \<lparr>CommandPtr = CommandLibrary ! command_index Type,
      GetOrSet = GetOrSetArg,
      Parameter = Par\<rparr>"

text \<open>
  \<open>SendCurrentCommand\<close>. The serial port is the list of the texts written to it so far.
  \<open>addr_written\<close> is the byte count the port reports for the first write (the
  controller address); the source compares it with the length of the address and gives up
  with \<open>false\<close> when they differ. The results of the later writes are ignored by the
  source. The function yields the \<open>bool\<close> it returns and the port afterwards; it has no
  other way of reporting a failure.
\<close>

definition SendCurrentCommand :: "nat \<Rightarrow> CommandEntry \<Rightarrow> string list \<Rightarrow> bool \<times> string list" where
  "SendCurrentCommand addr_written CommandToPrint tx =
     (if addr_written \<noteq> length ControllerAdress
      then (False, tx @ [take addr_written ControllerAdress])
      else
        let tx1 = tx @ [ControllerAdress];
            commandString = CommandChar (CommandPtr CommandToPrint);
            tx2 = tx1 @ [commandString];
            tx3 =
              (if GetOrSet CommandToPrint = Get then tx2 @ [''?'']
               else
                 let paramString =
                   (if SendType (CommandPtr CommandToPrint) = ParamInt
                    then to_string_int (static_cast_int (Parameter CommandToPrint))
                    else if SendType (CommandPtr CommandToPrint) = ParamFloat
                    then to_string_float (Parameter CommandToPrint)
                    else [])
                 in tx2 @ [paramString])
        in (True, tx3 @ [[CR, LF]]))"

section \<open>Stage moves and convergence helpers (individualCommands.cpp)\<close>

subsection \<open>moveStage\<close>







subsection \<open>checkTimeout and waitForPosition\<close>


text \<open>
  What the controller and the clock do in one iteration of \<open>waitForPosition\<close>: the text
  \<open>GetPosition\<close> returns, what \<open>std::stof\<close> makes of the position field of that text
  (a number, or an exception, which the \<open>catch\<close> swallows), and the time the iteration
  takes beyond its two sleeps of 50 ms each.
\<close>

record position_reading =
  reply :: string
  stof_result :: "cxx_exception + real"
  extra_ms :: nat









text \<open>The time after the first \<open>i\<close> iterations: each one sleeps twice for 50 ms.\<close>

fun time_after :: "(nat \<Rightarrow> position_reading) \<Rightarrow> nat \<Rightarrow> nat" where
  "time_after controller 0 = 0"
| "time_after controller (Suc i) = time_after controller i + 50 + 50 + extra_ms (controller i)"




section \<open>The layer settings table (individualCommands.cpp, individualCommands.h)\<close>

subsection \<open>LayerSettings and its comparisons\<close>

record LayerSettings =
  intensity :: int
  exposureTime :: int
  darkTime :: int

text \<open>\<open>operator<\<close>: the lexicographic order of \<open>std::tie\<close> on the three fields.\<close>

definition settings_less :: "LayerSettings \<Rightarrow> LayerSettings \<Rightarrow> bool" where
  "settings_less a b =
     (intensity a < intensity b
      \<or> (intensity a = intensity b
          \<and> (exposureTime a < exposureTime b
              \<or> (exposureTime a = exposureTime b \<and> darkTime a < darkTime b))))"

text \<open>\<open>operator==\<close>.\<close>

definition settings_eq :: "LayerSettings \<Rightarrow> LayerSettings \<Rightarrow> bool" where
  "settings_eq a b =
     (intensity a = intensity b \<and> exposureTime a = exposureTime b \<and> darkTime a = darkTime b)"

subsection \<open>Reading lines and extracting fields\<close>

text \<open>
  \<open>std::getline\<close> over the whole file: the lines of the text, a line ending at each
  line feed; characters after the last line feed form a last line when there are any.
  The second argument is the line read so far.
\<close>

fun getlines :: "string \<Rightarrow> string \<Rightarrow> string list" where
  "getlines [] line = (if line = [] then [] else [line])"
| "getlines (c # cs) line = (if c = LF then line # getlines cs [] else getlines cs (line @ [c]))"

text \<open>
  An input string stream: the characters not yet read, and whether an extraction has
  failed (after which every extraction does nothing).
\<close>

record istringstream =
  unread :: string
  failbit :: bool

definition isspace :: "char \<Rightarrow> bool" where
  "isspace c = (c \<in> set [CHR '' '', CHR 0x09, CHR 0x0A, CHR 0x0B, CHR 0x0C, CHR 0x0D])"

definition isdigit :: "char \<Rightarrow> bool" where
  "isdigit c = (c \<in> set ''0123456789'')"

definition digits_value :: "string \<Rightarrow> int" where
  "digits_value ds = foldl (\<lambda>acc c. 10 * acc + (of_char c - 48)) 0 ds"

text \<open>
  \<open>iss >> x\<close> for an \<open>int\<close>. The first component is what is stored into the variable:
  \<open>None\<close> when the variable is left as it was (the stream had failed already, or only
  white space was left), \<open>Some 0\<close> when no number could be read, the nearest bound when
  the number does not fit an \<open>int\<close>; in these cases the stream fails.
\<close>

definition extract_int :: "istringstream \<Rightarrow> int option \<times> istringstream" where
  "extract_int iss =
     (if failbit iss then (None, iss)
      else
        case dropWhile isspace (unread iss) of
          [] \<Rightarrow> (None, \<lparr>unread = [], failbit = True\<rparr>)
        | c # cs \<Rightarrow>
            let body = (if c = CHR ''-'' \<or> c = CHR ''+'' then cs else c # cs);
                ds = takeWhile isdigit body;
                rest = dropWhile isdigit body;
                v = (if c = CHR ''-'' then - digits_value ds else digits_value ds)
            in if ds = [] then (Some 0, \<lparr>unread = rest, failbit = True\<rparr>)
               else if INT_MAX < v then (Some INT_MAX, \<lparr>unread = rest, failbit = True\<rparr>)
               else if v < INT_MIN then (Some INT_MIN, \<lparr>unread = rest, failbit = True\<rparr>)
               else (Some v, \<lparr>unread = rest, failbit = False\<rparr>))"

text \<open>\<open>iss >> delim\<close> for a \<open>char\<close>: the next character that is not white space.\<close>

definition extract_char :: "istringstream \<Rightarrow> char option \<times> istringstream" where
  "extract_char iss =
     (if failbit iss then (None, iss)
      else
        case dropWhile isspace (unread iss) of
          [] \<Rightarrow> (None, \<lparr>unread = [], failbit = True\<rparr>)
        | c # cs \<Rightarrow> (Some c, \<lparr>unread = cs, failbit = False\<rparr>))"

text \<open>
  The extraction chain of one row,
  \<open>iss >> layer >> delim >> intensity >> delim >> exposureTime >> delim >> darkTime\<close>,
  giving what was stored into \<open>intensity\<close>, \<open>exposureTime\<close> and \<open>darkTime\<close>.
  The four variables are declared without an initial value.
\<close>

definition parse_row :: "string \<Rightarrow> int option \<times> int option \<times> int option" where
  "parse_row line =
     (let (layer, iss1) = extract_int \<lparr>unread = line, failbit = False\<rparr>;
          (delim1, iss2) = extract_char iss1;
          (intensityV, iss3) = extract_int iss2;
          (delim2, iss4) = extract_char iss3;
          (exposureTimeV, iss5) = extract_int iss4;
          (delim3, iss6) = extract_char iss5;
          (darkTimeV, iss7) = extract_int iss6
      in (intensityV, exposureTimeV, darkTimeV))"

text \<open>
  Constructing \<open>currentSetting\<close> reads the three variables. Reading one that was never
  written has no defined behaviour in C++; the compiled loader goes on with whatever the
  variable holds. \<open>held\<close> is that content of \<open>intensity\<close>, \<open>exposureTime\<close> and
  \<open>darkTime\<close> before the extraction; it is given from outside, so that what is proved
  holds whatever the variables held.
\<close>

definition row_settings :: "int \<times> int \<times> int \<Rightarrow> string \<Rightarrow> LayerSettings" where
  "row_settings held line =
     (case parse_row line of
        (intensityV, exposureTimeV, darkTimeV) \<Rightarrow>
          \<lparr>intensity = (case intensityV of Some v \<Rightarrow> v | None \<Rightarrow> fst held),
           exposureTime = (case exposureTimeV of Some v \<Rightarrow> v | None \<Rightarrow> fst (snd held)),
           darkTime = (case darkTimeV of Some v \<Rightarrow> v | None \<Rightarrow> snd (snd held))\<rparr>)"

subsection \<open>readSettingsOrdered\<close>

text \<open>
  \<open>std::map<LayerSettings, int>\<close> as an association list. Two keys are the same key of
  the map when neither is less than the other; \<open>operator[]\<close> followed by \<open>++\<close> adds
  a missing key with count 0 before counting.
\<close>

fun map_find :: "(LayerSettings \<times> int) list \<Rightarrow> LayerSettings \<Rightarrow> int option" where
  "map_find [] k = None"
| "map_find ((k', n) # m) k =
     (if \<not> settings_less k' k \<and> \<not> settings_less k k' then Some n else map_find m k)"

fun map_increment :: "(LayerSettings \<times> int) list \<Rightarrow> LayerSettings \<Rightarrow> (LayerSettings \<times> int) list" where
  "map_increment [] k = [(k, 0 + 1)]"
| "map_increment ((k', n) # m) k =
     (if \<not> settings_less k' k \<and> \<not> settings_less k k' then (k', n + 1) # m
      else (k', n) # map_increment m k)"

text \<open>
  The \<open>for\<close> loop over \<open>orderedSettings\<close> in the \<open>else\<close> branch: the first entry
  equal to the current setting is counted up, and the loop stops there.
\<close>

fun increment_first :: "LayerSettings \<Rightarrow> (LayerSettings \<times> int) list \<Rightarrow> (LayerSettings \<times> int) list" where
  "increment_first currentSetting [] = []"
| "increment_first currentSetting ((s, n) # rest) =
     (if settings_eq s currentSetting then (s, n + 1) # rest
      else (s, n) # increment_first currentSetting rest)"

text \<open>The body of the \<open>while\<close> loop after the row has been parsed.\<close>

definition add_setting ::
    "LayerSettings \<Rightarrow> (LayerSettings \<times> int) list \<times> (LayerSettings \<times> int) list
      \<Rightarrow> (LayerSettings \<times> int) list \<times> (LayerSettings \<times> int) list" where
  "add_setting currentSetting st =
     (case st of (orderedSettings, settingsCount) \<Rightarrow>
        if map_find settingsCount currentSetting = None
        then (orderedSettings @ [(currentSetting, 1)], map_increment settingsCount currentSetting)
        else (increment_first currentSetting orderedSettings,
              map_increment (map_increment settingsCount currentSetting) currentSetting))"

text \<open>
  The \<open>while\<close> loop over the data rows. \<open>held i\<close> is what the three variables hold
  when row \<open>i\<close> is parsed.
\<close>

fun settings_loop ::
    "(nat \<Rightarrow> int \<times> int \<times> int) \<Rightarrow> nat \<Rightarrow> string list
      \<Rightarrow> (LayerSettings \<times> int) list \<times> (LayerSettings \<times> int) list
      \<Rightarrow> (LayerSettings \<times> int) list" where
  "settings_loop held i [] st = fst st"
| "settings_loop held i (line # rest) st =
     settings_loop held (Suc i) rest (add_setting (row_settings (held i) line) st)"

text \<open>
  \<open>readSettingsOrdered\<close>. The file is \<open>None\<close> when it cannot be opened (every
  \<open>getline\<close> then fails), otherwise its text. The first line is read and dropped; the
  counters are unbounded integers here (the \<open>int\<close> counters of the source overflow only
  beyond \<open>2^30\<close> rows).
\<close>

definition data_lines :: "string option \<Rightarrow> string list" where
  "data_lines file = drop 1 (case file of None \<Rightarrow> [] | Some content \<Rightarrow> getlines content [])"

definition readSettingsOrdered ::
    "(nat \<Rightarrow> int \<times> int \<times> int) \<Rightarrow> string option \<Rightarrow> (LayerSettings \<times> int) list" where
  "readSettingsOrdered held file = settings_loop held 0 (data_lines file) ([], [])"

text \<open>Variables that hold 0 before every row.\<close>

definition nothing_held :: "nat \<Rightarrow> int \<times> int \<times> int" where
  "nothing_held i = (0, 0, 0)"

subsection \<open>The table as the specification describes it\<close>

text \<open>
  The specification's table, written down independently of the loader: the distinct
  settings in the order of their first appearance, each with the number of rows that
  carry it.
\<close>

definition first_appearances :: "'a list \<Rightarrow> 'a list" where
  "first_appearances xs = rev (remdups (rev xs))"

definition grouped_table :: "LayerSettings list \<Rightarrow> (LayerSettings \<times> int) list" where
  "grouped_table ps = map (\<lambda>s. (s, int (count_list ps s))) (first_appearances ps)"

text \<open>The settings the loader extracts from the rows, row by row.\<close>

fun extracted_settings :: "(nat \<Rightarrow> int \<times> int \<times> int) \<Rightarrow> nat \<Rightarrow> string list \<Rightarrow> LayerSettings list" where
  "extracted_settings held i [] = []"
| "extracted_settings held i (line # rest) =
     row_settings (held i) line # extracted_settings held (Suc i) rest"

text \<open>
  The specification's reading of a row, independent of the loader's extraction: the row
  is cut at its commas; it carries a triple when it has exactly four fields and each is
  the decimal text of an integer of the \<open>int\<close> range (digits, after an optional minus
  sign). The triple is that of the second, third and fourth field.
\<close>

fun split_fields :: "string \<Rightarrow> string \<Rightarrow> string list" where
  "split_fields [] field = [field]"
| "split_fields (c # cs) field =
     (if c = CHR '','' then field # split_fields cs [] else split_fields cs (field @ [c]))"

text \<open>The fields put together again, with the commas between them.\<close>

fun join_fields :: "string list \<Rightarrow> string" where
  "join_fields [] = []"
| "join_fields [f] = f"
| "join_fields (f # g # fs) = f @ CHR '','' # join_fields (g # fs)"

definition in_int_range :: "int \<Rightarrow> bool" where
  "in_int_range v = (INT_MIN \<le> v \<and> v \<le> INT_MAX)"

definition numeric_field :: "string \<Rightarrow> int option" where
  "numeric_field f =
     (case f of
        [] \<Rightarrow> None
      | c # cs \<Rightarrow>
          let ds = (if c = CHR ''-'' then cs else c # cs);
              v = (if c = CHR ''-'' then - digits_value ds else digits_value ds)
          in if ds \<noteq> [] \<and> list_all isdigit ds \<and> in_int_range v then Some v else None)"

definition carried_triple :: "string \<Rightarrow> LayerSettings option" where
  "carried_triple line =
     (case split_fields line [] of
        [f1, f2, f3, f4] \<Rightarrow>
          (case (numeric_field f1, numeric_field f2, numeric_field f3, numeric_field f4) of
             (Some layer, Some i, Some e, Some d) \<Rightarrow>
               Some \<lparr>intensity = i, exposureTime = e, darkTime = d\<rparr>
           | _ \<Rightarrow> None)
      | _ \<Rightarrow> None)"

text \<open>How many of the rows carry the given triple.\<close>

definition rows_carrying :: "string list \<Rightarrow> LayerSettings \<Rightarrow> nat" where
  "rows_carrying lines s = length (filter (\<lambda>line. carried_triple line = Some s) lines)"

section \<open>The print loop (RunFull and RunFullDynamic, individualCommands.cpp)\<close>

subsection \<open>Environment, effects and loop state\<close>

text \<open>
  What the outside world shows to one iteration of the loop: whether the window delivers
  a close event, the abort flag, the clock in milliseconds, whether the stage task has
  finished (\<open>stageThread.wait_for(0) == ready\<close>), and whether a \<open>loadFromFile\<close>
  made in this iteration succeeds.
\<close>

record tick =
  closeEvent :: bool
  abortFlag :: bool
  now :: int
  stageReady :: bool
  loadOk :: bool

text \<open>
  The effects of a run, in the order they happen: drawing a texture or a black frame,
  loading an image file into a texture slot (with the result of the load, which the
  source does not look at), launching and joining the asynchronous
  \<open>moveStage\<close> task, the controller calls, setting the light-engine current, closing
  the window, and the log and console lines the claims refer to.
\<close>

datatype event =
    Log string
  | LogDisplaying nat
  | LogFinalPosition
  | DisplayTexture nat
  | DisplayBlack
  | LoadFromFile nat nat bool
  | LaunchMoveStage
  | JoinMoveStage
  | GetPosition
  | Home
  | SMC100CClose
  | SetCurrent int
  | WindowClose
  | ApplySettings LayerSettings
  | PrintedLayer LayerSettings

text \<open>
  What does not come from the arguments of the run: the number of files in the directory
  (\<open>imagePaths.size()\<close>), whether the directory can be enumerated, whether the load
  of the first image succeeds, whether \<open>initializeController\<close> succeeds, whether the
  window is open when the loop is reached, and whether \<open>controller.Home()\<close> reports
  that its command was sent.
\<close>

record rig =
  numImages :: nat
  dirReadable :: bool
  firstLoadOk :: bool
  controllerInit :: bool
  windowOpenAtStart :: bool
  homeSent :: bool

text \<open>
  The local variables of the run that the loop reads or writes, the image each of the two
  textures holds, and the effects so far.
\<close>

record run_state =
  windowOpen :: bool
  currentTextureIndex :: nat
  currentImageIndex :: nat
  nextImageLoaded :: bool
  isNextImageLoading :: bool
  allImagesShown :: bool
  isStageThreadRunning :: bool
  darkTimeStart :: int
  imageDisplayCount :: int
  filenameLogged :: bool
  inLightPhase :: bool
  displayImage :: bool
  currentLayer :: int
  inInitialPhase :: bool
  layercounter :: int
  textures :: "nat option list"
  trace :: "event list"

datatype setup_failure = FilesystemError | ImageIndexOutOfRange | ProcessExit

datatype outcome = Completed run_state | Aborted run_state | NoRun setup_failure

definition emit :: "event list \<Rightarrow> run_state \<Rightarrow> run_state" where
  "emit es s = s\<lparr>trace := trace s @ es\<rparr>"

text \<open>
  The state when the loop is reached: the load of the first image into texture 0 has been
  made. A load that succeeds puts the image into the texture; one that fails leaves the
  texture as it was, and the run goes on (for the first image the source logs the
  failure, for the later ones it drops the result).
\<close>

definition initial_state :: "rig \<Rightarrow> run_state" where
  "initial_state r =
     \<lparr>windowOpen = windowOpenAtStart r,
      currentTextureIndex = 0,
      currentImageIndex = 0,
      nextImageLoaded = False,
      isNextImageLoading = False,
      allImagesShown = False,
      isStageThreadRunning = False,
      darkTimeStart = 0,
      imageDisplayCount = 0,
      filenameLogged = False,
      inLightPhase = True,
      displayImage = True,
      currentLayer = 0,
      inInitialPhase = True,
      layercounter = 0,
      textures = [if firstLoadOk r then Some 0 else None, None],
      trace = [LoadFromFile 0 0 (firstLoadOk r)]\<rparr>"

subsection \<open>The two branches of the loop body\<close>

text \<open>The event loop at the head of an iteration of \<open>RunFull\<close>.\<close>

definition poll_events :: "tick \<Rightarrow> run_state \<Rightarrow> run_state" where
  "poll_events t s = (if closeEvent t then emit [WindowClose] (s\<lparr>windowOpen := False\<rparr>) else s)"

text \<open>
  Light branch, after the abort check: the current texture is drawn, and on the first
  frame of the phase the file name is logged.
\<close>

definition show_image :: "run_state \<Rightarrow> run_state" where
  "show_image s =
     (let s1 = emit [DisplayTexture (currentTextureIndex s)] s
      in if \<not> filenameLogged s1 \<and> inLightPhase s1
         then (emit [LogDisplaying (currentImageIndex s1)] s1)
                \<lparr>filenameLogged := True, inLightPhase := False\<rparr>
         else s1)"

text \<open>
  The rest of the light branch of \<open>RunFull\<close>: the frame counter, and at the threshold
  the end of the exposure (layer counter, position query, start of the dark timer).
\<close>

definition RunFull_light :: "int \<Rightarrow> int \<Rightarrow> int \<Rightarrow> tick \<Rightarrow> run_state \<Rightarrow> run_state" where
  "RunFull_light maxImageDisplayCount initialExposureCounter initialLayers t s0 =
     (let s1 = show_image s0;
          maxCount = (if inInitialPhase s1 then initialExposureCounter else maxImageDisplayCount);
          s2 = s1\<lparr>imageDisplayCount := imageDisplayCount s1 + 1\<rparr>
      in if maxCount \<le> imageDisplayCount s2
         then
           let s3 = s2\<lparr>displayImage := False, imageDisplayCount := 0,
                       currentLayer := currentLayer s2 + 1\<rparr>;
               s4 = (if initialLayers \<le> currentLayer s3 then s3\<lparr>inInitialPhase := False\<rparr> else s3)
           in (emit [GetPosition] s4)\<lparr>darkTimeStart := now t\<rparr>
         else s2)"

text \<open>
  Dark branch up to the poll of the stage task, statement by statement. First a black
  frame is shown, and on the first frame of the phase the phase flag is turned.
\<close>

definition begin_dark :: "run_state \<Rightarrow> run_state" where
  "begin_dark s0 =
     (let s1 = emit [DisplayBlack] s0
      in if \<not> inLightPhase s1 then s1\<lparr>inLightPhase := True\<rparr> else s1)"

text \<open>The stage move is launched when none is running and the next image is not loaded.\<close>

definition launch_stage_move :: "run_state \<Rightarrow> run_state" where
  "launch_stage_move s =
     (if \<not> isStageThreadRunning s \<and> \<not> nextImageLoaded s
      then emit [LaunchMoveStage] (s\<lparr>isStageThreadRunning := True\<rparr>)
      else s)"

text \<open>
  The load of the next image into the texture that is not shown; the image is marked
  loaded whether the load succeeds or not. When there is no next image, all images are
  marked shown.
\<close>

definition load_next_image :: "nat \<Rightarrow> tick \<Rightarrow> run_state \<Rightarrow> run_state" where
  "load_next_image n t s =
     (if currentImageIndex s + 1 < n \<and> \<not> isNextImageLoading s
      then emit [LoadFromFile (1 - currentTextureIndex s) (currentImageIndex s + 1) (loadOk t)]
             (s\<lparr>isNextImageLoading := True,
                textures :=
                  (if loadOk t
                   then (textures s)[1 - currentTextureIndex s := Some (currentImageIndex s + 1)]
                   else textures s),
                nextImageLoaded := True\<rparr>)
      else if n \<le> currentImageIndex s + 1 \<and> \<not> isNextImageLoading s
      then s\<lparr>allImagesShown := True\<rparr>
      else s)"

text \<open>A stage task that has finished is joined.\<close>

definition poll_stage_move :: "tick \<Rightarrow> run_state \<Rightarrow> run_state" where
  "poll_stage_move t s =
     (if isStageThreadRunning s \<and> stageReady t
      then emit [JoinMoveStage] (s\<lparr>isStageThreadRunning := False\<rparr>)
      else s)"

definition dark_work :: "nat \<Rightarrow> tick \<Rightarrow> run_state \<Rightarrow> run_state" where
  "dark_work n t s0 =
     poll_stage_move t (load_next_image n t (launch_stage_move (begin_dark s0)))"

text \<open>The condition of the buffer swap, and the swap itself.\<close>

definition swap_due :: "int \<Rightarrow> tick \<Rightarrow> run_state \<Rightarrow> bool" where
  "swap_due darkDuration t s =
     (darkDuration < now t - darkTimeStart s \<and> nextImageLoaded s \<and> \<not> isStageThreadRunning s)"

definition swap_buffers :: "run_state \<Rightarrow> run_state" where
  "swap_buffers s =
     emit [DisplayBlack, DisplayBlack]
       (s\<lparr>displayImage := True,
          isNextImageLoading := False,
          currentImageIndex := currentImageIndex s + 1,
          currentTextureIndex := 1 - currentTextureIndex s,
          nextImageLoaded := False,
          filenameLogged := False\<rparr>)"

definition RunFull_dark :: "nat \<Rightarrow> int \<Rightarrow> tick \<Rightarrow> run_state \<Rightarrow> run_state" where
  "RunFull_dark n mindarktime t s0 =
     (let s1 = dark_work n t s0
      in if swap_due mindarktime t s1 then swap_buffers s1 else s1)"

subsection \<open>RunFull\<close>

datatype loop_exit = Continue | Break | Return

text \<open>
  One iteration of \<open>while (window.isOpen())\<close>: events, one of the two branches (the
  light branch returns from the function when the abort flag is set), and the exit test
  at the end of the body.
\<close>

definition RunFull_body ::
    "rig \<Rightarrow> int \<Rightarrow> int \<Rightarrow> int \<Rightarrow> int \<Rightarrow> tick \<Rightarrow> run_state \<Rightarrow> loop_exit \<times> run_state" where
  "RunFull_body r maxImageDisplayCount mindarktime initialExposureCounter initialLayers t s0 =
     (let s = poll_events t s0
      in if displayImage s \<and> abortFlag t then (Return, emit [Log ''Run Full aborted.''] s)
         else
           let s1 = (if displayImage s
                     then RunFull_light maxImageDisplayCount initialExposureCounter initialLayers t s
                     else RunFull_dark (numImages r) mindarktime t s)
           in if allImagesShown s1 \<and> \<not> displayImage s1
              then (Break, emit [Log ''All images shown, exiting program.'', SetCurrent 0] s1)
              else (Continue, s1))"

text \<open>
  The code after the loop: a stage task still running is joined, the position is queried
  and logged, the stage is sent home, the connection and the window are closed.
\<close>

definition shutdown :: "rig \<Rightarrow> run_state \<Rightarrow> run_state" where
  "shutdown r s =
     (let s1 = (if isStageThreadRunning s then emit [JoinMoveStage] s else s)
      in (emit ([GetPosition, LogFinalPosition, Home]
                @ (if homeSent r then [Log ''Homed''] else [])
                @ [SMC100CClose, Log ''Closed connection'', WindowClose]) s1)
           \<lparr>windowOpen := False\<rparr>)"

text \<open>
  The loop over the ticks of the environment. The loop has no bound of its own: when the
  ticks run out while the window is open the run is still going on (\<open>None\<close>).
\<close>

fun RunFull_loop ::
    "rig \<Rightarrow> int \<Rightarrow> int \<Rightarrow> int \<Rightarrow> int \<Rightarrow> tick list \<Rightarrow> run_state \<Rightarrow> outcome option" where
  "RunFull_loop r maxImageDisplayCount mindarktime initialExposureCounter initialLayers [] s =
     (if windowOpen s then None else Some (Completed (shutdown r s)))"
| "RunFull_loop r maxImageDisplayCount mindarktime initialExposureCounter initialLayers (t # ts) s =
     (if \<not> windowOpen s then Some (Completed (shutdown r s))
      else
        case RunFull_body r maxImageDisplayCount mindarktime initialExposureCounter initialLayers t s of
          (Return, s') \<Rightarrow> Some (Aborted s')
        | (Break, s') \<Rightarrow> Some (Completed (shutdown r s'))
        | (Continue, s') \<Rightarrow>
            RunFull_loop r maxImageDisplayCount mindarktime initialExposureCounter initialLayers ts s')"

text \<open>
  \<open>RunFull\<close>: a directory that cannot be enumerated ends the run at once; indexing an
  empty list of images has no defined behaviour; a controller that does not initialise
  ends the process.
\<close>

definition RunFull ::
    "rig \<Rightarrow> int \<Rightarrow> int \<Rightarrow> int \<Rightarrow> int \<Rightarrow> tick list \<Rightarrow> outcome option" where
  "RunFull r maxImageDisplayCount mindarktime initialExposureCounter initialLayers ticks =
     (if \<not> dirReadable r then Some (NoRun FilesystemError)
      else if numImages r = 0 then Some (NoRun ImageIndexOutOfRange)
      else if \<not> controllerInit r then Some (NoRun ProcessExit)
      else RunFull_loop r maxImageDisplayCount mindarktime initialExposureCounter initialLayers
             ticks (initial_state r))"

text \<open>
  The state at the head of the loop after the given ticks, when the loop is still running
  there.
\<close>

fun RunFull_reach ::
    "rig \<Rightarrow> int \<Rightarrow> int \<Rightarrow> int \<Rightarrow> int \<Rightarrow> tick list \<Rightarrow> run_state \<Rightarrow> run_state option" where
  "RunFull_reach r maxImageDisplayCount mindarktime initialExposureCounter initialLayers [] s =
     (if windowOpen s then Some s else None)"
| "RunFull_reach r maxImageDisplayCount mindarktime initialExposureCounter initialLayers (t # ts) s =
     (if \<not> windowOpen s then None
      else
        case RunFull_body r maxImageDisplayCount mindarktime initialExposureCounter initialLayers t s of
          (Continue, s') \<Rightarrow>
            RunFull_reach r maxImageDisplayCount mindarktime initialExposureCounter initialLayers ts s'
        | (Break, s') \<Rightarrow> None
        | (Return, s') \<Rightarrow> None)"

text \<open>Stage tasks launched and not yet joined, counted from the effects.\<close>

definition in_flight :: "event list \<Rightarrow> int" where
  "in_flight tr = int (count_list tr LaunchMoveStage) - int (count_list tr JoinMoveStage)"

text \<open>
  The last load made into a texture slot, read off the effects: the image and whether the
  load succeeded.
\<close>

fun note_load :: "nat \<Rightarrow> (nat \<times> bool) option \<Rightarrow> event \<Rightarrow> (nat \<times> bool) option" where
  "note_load slot seen (LoadFromFile k img ok) = (if k = slot then Some (img, ok) else seen)"
| "note_load slot seen e = seen"

definition last_load :: "event list \<Rightarrow> nat \<Rightarrow> (nat \<times> bool) option" where
  "last_load tr slot = foldl (note_load slot) None tr"

text \<open>
  The last load into the slot was that of the image, and the texture holds the image when
  that load succeeded.
\<close>

definition load_made :: "run_state \<Rightarrow> nat \<Rightarrow> nat \<Rightarrow> bool" where
  "load_made s slot img =
     (case last_load (trace s) slot of
        None \<Rightarrow> False
      | Some (i, ok) \<Rightarrow> i = img \<and> (ok \<longrightarrow> textures s ! slot = Some img))"

text \<open>
  What holds at the head of every iteration of the loop: the texture index is 0 or 1 and
  there are two textures; the running flag is set exactly when one stage task is in
  flight, and never more than one is; the load of the current image into the texture
  shown has been made; and when the next image is marked loaded, its load into the other
  texture has been made.
\<close>

definition loop_invariant :: "run_state \<Rightarrow> bool" where
  "loop_invariant s =
     (currentTextureIndex s < 2 \<and> length (textures s) = 2
      \<and> in_flight (trace s) = (if isStageThreadRunning s then 1 else 0)
      \<and> load_made s (currentTextureIndex s) (currentImageIndex s)
      \<and> (nextImageLoaded s \<longrightarrow>
            load_made s (1 - currentTextureIndex s) (currentImageIndex s + 1)))"

subsection \<open>RunFullDynamic\<close>

text \<open>
  The light branch of the dynamic run: the threshold is the exposure time of the current
  group.
\<close>

definition Dynamic_light :: "LayerSettings \<Rightarrow> tick \<Rightarrow> run_state \<Rightarrow> run_state" where
  "Dynamic_light currentSetting t s0 =
     (let s1 = show_image s0;
          s2 = s1\<lparr>imageDisplayCount := imageDisplayCount s1 + 1\<rparr>
      in if exposureTime currentSetting \<le> imageDisplayCount s2
         then (emit [GetPosition]
                 (s2\<lparr>displayImage := False, imageDisplayCount := 0,
                     currentLayer := currentLayer s2 + 1\<rparr>))
                \<lparr>darkTimeStart := now t\<rparr>
         else s2)"

text \<open>
  The dark branch of the dynamic run: as in \<open>RunFull\<close>, with the dark time of the
  current group; the swap also prints the layer and counts it in \<open>layercounter\<close>.
\<close>

definition Dynamic_dark :: "nat \<Rightarrow> LayerSettings \<Rightarrow> tick \<Rightarrow> run_state \<Rightarrow> run_state" where
  "Dynamic_dark n currentSetting t s0 =
     (let s1 = dark_work n t s0
      in if swap_due (darkTime currentSetting) t s1
         then
           let s2 = emit [PrintedLayer currentSetting] (swap_buffers s1)
           in s2\<lparr>layercounter := layercounter s2 + 1\<rparr>
         else s1)"

text \<open>
  The inner loop \<open>while (layercounter <= layerCount)\<close> of one group. It yields how the
  loop was left (\<open>Return\<close> for the abort, \<open>Break\<close> when all images are shown,
  \<open>Continue\<close> when the loop condition fails), the state, and the ticks not yet used.
\<close>

fun Dynamic_layers ::
    "nat \<Rightarrow> LayerSettings \<Rightarrow> int \<Rightarrow> tick list \<Rightarrow> run_state
      \<Rightarrow> (loop_exit \<times> run_state \<times> tick list) option" where
  "Dynamic_layers n currentSetting layerCount [] s =
     (if layercounter s \<le> layerCount then None else Some (Continue, s, []))"
| "Dynamic_layers n currentSetting layerCount (t # ts) s =
     (if \<not> layercounter s \<le> layerCount then Some (Continue, s, t # ts)
      else if displayImage s \<and> abortFlag t
      then Some (Return, emit [Log ''Run Full aborted.''] s, ts)
      else
        let s1 = (if displayImage s then Dynamic_light currentSetting t s
                  else Dynamic_dark n currentSetting t s)
        in if allImagesShown s1 \<and> \<not> displayImage s1
           then Some (Break, emit [Log ''All images shown, exiting program.'', SetCurrent 0] s1, ts)
           else Dynamic_layers n currentSetting layerCount ts s1)"

text \<open>
  The \<open>for\<close> loop over the settings table: the settings of the group are logged, the
  light-engine current is set to the intensity (cast to a byte), the layer counter is
  reset, and the inner loop runs. Leaving the inner loop by \<open>break\<close> goes on with the
  next group.
\<close>

fun Dynamic_groups ::
    "nat \<Rightarrow> (LayerSettings \<times> int) list \<Rightarrow> tick list \<Rightarrow> run_state \<Rightarrow> (loop_exit \<times> run_state) option" where
  "Dynamic_groups n [] ts s = Some (Continue, s)"
| "Dynamic_groups n ((currentSetting, layerCount) # rest) ts s =
     (case Dynamic_layers n currentSetting layerCount ts
             ((emit [ApplySettings currentSetting, SetCurrent (intensity currentSetting mod 256)] s)
                \<lparr>layercounter := 0\<rparr>) of
        None \<Rightarrow> None
      | Some (Return, s', ts') \<Rightarrow> Some (Return, s')
      | Some (ex, s', ts') \<Rightarrow> Dynamic_groups n rest ts' s')"

text \<open>
  \<open>RunFullDynamic\<close>. The body of \<open>while (window.isOpen())\<close> runs at most once (it
  ends with \<open>break\<close>); the window events polled at its head do not change what follows.
\<close>

definition RunFullDynamic ::
    "rig \<Rightarrow> (LayerSettings \<times> int) list \<Rightarrow> tick list \<Rightarrow> outcome option" where
  "RunFullDynamic r orderedSettings ticks =
     (if \<not> dirReadable r then Some (NoRun FilesystemError)
      else if numImages r = 0 then Some (NoRun ImageIndexOutOfRange)
      else if \<not> controllerInit r then Some (NoRun ProcessExit)
      else if \<not> windowOpenAtStart r then Some (Completed (shutdown r (initial_state r)))
      else
        case Dynamic_groups (numImages r) orderedSettings ticks (initial_state r) of
          None \<Rightarrow> None
        | Some (Return, s) \<Rightarrow> Some (Aborted s)
        | Some (ex, s) \<Rightarrow> Some (Completed (shutdown r s)))"

text \<open>Reading an outcome: its effects, and the settings events among them.\<close>

fun outcome_trace :: "outcome \<Rightarrow> event list" where
  "outcome_trace (Completed s) = trace s"
| "outcome_trace (Aborted s) = trace s"
| "outcome_trace (NoRun f) = []"

fun is_layer_event :: "event \<Rightarrow> bool" where
  "is_layer_event (ApplySettings c) = True"
| "is_layer_event (PrintedLayer c) = True"
| "is_layer_event e = False"

fun is_aborted :: "outcome \<Rightarrow> bool" where
  "is_aborted (Aborted s) = True"
| "is_aborted out = False"

fun is_stage_event :: "event \<Rightarrow> bool" where
  "is_stage_event LaunchMoveStage = True"
| "is_stage_event JoinMoveStage = True"
| "is_stage_event GetPosition = True"
| "is_stage_event Home = True"
| "is_stage_event SMC100CClose = True"
| "is_stage_event e = False"

definition stage_events :: "outcome \<Rightarrow> event list" where
  "stage_events out = filter is_stage_event (outcome_trace out)"

definition layer_events :: "outcome \<Rightarrow> event list" where
  "layer_events out = filter is_layer_event (outcome_trace out)"

text \<open>
  A steady environment: tick \<open>i\<close> comes \<open>i\<close> seconds after the start, the stage task
  is always found finished, every load succeeds, nobody aborts or closes the window.
\<close>

definition steady_tick :: "nat \<Rightarrow> tick" where
  "steady_tick i =
     \<lparr>closeEvent = False, abortFlag = False, now = 1000 * int i, stageReady = True,
      loadOk = True\<rparr>"

text \<open>The same tick, but a load made in it fails.\<close>

definition failed_load_tick :: "nat \<Rightarrow> tick" where
  "failed_load_tick i =
     \<lparr>closeEvent = False, abortFlag = False, now = 1000 * int i, stageReady = True,
      loadOk = False\<rparr>"

definition steady_ticks :: "nat \<Rightarrow> tick list" where
  "steady_ticks k = map steady_tick [0..<k]"

text \<open>The tick at which the operator has set the abort flag.\<close>

definition abort_tick :: "int \<Rightarrow> tick" where
  "abort_tick t =
     \<lparr>closeEvent = False, abortFlag = True, now = t, stageReady = True, loadOk = True\<rparr>"

definition good_rig :: "nat \<Rightarrow> rig" where
  "good_rig n =
     \<lparr>numImages = n, dirReadable = True, firstLoadOk = True, controllerInit = True,
      windowOpenAtStart = True, homeSent = True\<rparr>"

text \<open>
  Two states of the run \<open>RunFull (good_rig 5) 3 100 3 2\<close> in the steady environment:
  at the end of the first exposure (after three light frames), and one iteration later,
  after the dark iteration that moved the stage, loaded the second image and swapped the
  textures.
\<close>

definition first_dark_state :: run_state where
  "first_dark_state =
     \<lparr>windowOpen = True, currentTextureIndex = 0, currentImageIndex = 0,
      nextImageLoaded = False, isNextImageLoading = False,
      allImagesShown = False, isStageThreadRunning = False,
      darkTimeStart = 2000, imageDisplayCount = 0, filenameLogged = True,
      inLightPhase = False, displayImage = False, currentLayer = 1,
      inInitialPhase = True, layercounter = 0, textures = [Some 0, None],
      trace =
        [LoadFromFile 0 0 True, DisplayTexture 0, LogDisplaying 0,
         DisplayTexture 0, DisplayTexture 0, GetPosition]\<rparr>"

definition second_light_state :: run_state where
  "second_light_state =
     \<lparr>windowOpen = True, currentTextureIndex = 1, currentImageIndex = 1,
      nextImageLoaded = False, isNextImageLoading = False,
      allImagesShown = False, isStageThreadRunning = False,
      darkTimeStart = 2000, imageDisplayCount = 0, filenameLogged = False,
      inLightPhase = True, displayImage = True, currentLayer = 1,
      inInitialPhase = True, layercounter = 0, textures = [Some 0, Some 1],
      trace =
        [LoadFromFile 0 0 True, DisplayTexture 0, LogDisplaying 0,
         DisplayTexture 0, DisplayTexture 0, GetPosition, DisplayBlack,
         LaunchMoveStage, LoadFromFile 1 1 True, JoinMoveStage, DisplayBlack,
         DisplayBlack]\<rparr>"

section \<open>Properties of the status decode and the command encoder\<close>

lemma scan_status_unmapped:
  "statusCode \<notin> fst ` set lib \<Longrightarrow> scan_status lib statusCode = ''Unknown Status Code: '' @ statusCode"
  by (induction lib) auto

lemma unknown_code_text_differs: "''Unknown Status Code: '' @ token \<noteq> status_text ty"
  by (cases ty) simp_all

text \<open>
  Claim C5, as the code has it. For a response of at least 7 characters the status decode
  takes the token of (at most) two characters at offset 7; the token \<open>33\<close> yields
  \<open>Ready\<close>; a token without an entry in the status table yields the text
  \<open>Unknown Status Code: \<close> followed by the token, which differs from the text of every
  status type, the plain \<open>Unknown\<close> included; and the decode does not fail. For a
  response shorter than 7 characters the decode raises \<open>out_of_range\<close>.
\<close>

theorem GetCurrentStatus_decode:
  "(7 \<le> length response \<longrightarrow>
      (take 2 (drop 7 response) = ''33'' \<longrightarrow> GetCurrentStatus response = Inr ''Ready'')
      \<and> (take 2 (drop 7 response) \<notin> fst ` set StatusLibrary \<longrightarrow>
            GetCurrentStatus response = Inr (''Unknown Status Code: '' @ take 2 (drop 7 response))
            \<and> (\<forall>ty. GetCurrentStatus response \<noteq> Inr (status_text ty)))
      \<and> (\<exists>text. GetCurrentStatus response = Inr text))
   \<and> (length response < 7 \<longrightarrow> GetCurrentStatus response = Inl out_of_range)"
proof -
  have ready: "take 2 (drop 7 response) = ''33'' \<Longrightarrow> GetCurrentStatus response = Inr ''Ready''"
    if "7 \<le> length response"
    using that by (simp add: GetCurrentStatus_def substr_def StatusLibrary_def)
  have unmapped: "GetCurrentStatus response = Inr (''Unknown Status Code: '' @ take 2 (drop 7 response))"
    if "7 \<le> length response" "take 2 (drop 7 response) \<notin> fst ` set StatusLibrary"
    using that by (simp add: GetCurrentStatus_def substr_def scan_status_unmapped)
  have total: "\<exists>text. GetCurrentStatus response = Inr text" if "7 \<le> length response"
    using that by (simp add: GetCurrentStatus_def substr_def)
  have short: "GetCurrentStatus response = Inl out_of_range" if "length response < 7"
    using that by (simp add: GetCurrentStatus_def substr_def)
  show ?thesis
    using ready unmapped total short unknown_code_text_differs by auto
qed

theorem GetCurrentStatus_decode_witness:
  "GetCurrentStatus ''1TS000033'' = Inr ''Ready''
   \<and> GetCurrentStatus ''1TS0000ZZ'' = Inr ''Unknown Status Code: ZZ''
   \<and> GetCurrentStatus ''1TS0000ZZ'' \<noteq> Inr ''Unknown''
   \<and> GetCurrentStatus ''1TE@'' = Inl out_of_range"
proof -
  have zz: "''ZZ'' \<notin> fst ` set StatusLibrary"
    by (simp add: StatusLibrary_def)
  have a: "GetCurrentStatus ''1TS000033'' = Inr ''Ready''"
    using GetCurrentStatus_decode [of "''1TS000033''"] by simp
  have b: "GetCurrentStatus ''1TS0000ZZ'' = Inr ''Unknown Status Code: ZZ''
           \<and> GetCurrentStatus ''1TS0000ZZ'' \<noteq> Inr (status_text Unknown)"
    using GetCurrentStatus_decode [of "''1TS0000ZZ''"] zz by simp
  have c: "GetCurrentStatus ''1TE@'' = Inl out_of_range"
    using GetCurrentStatus_decode [of "''1TE@''"] by simp
  show ?thesis using a b c by simp
qed

theorem GetCurrentStatus_short_line_counterexample:
  "GetCurrentStatus ''1TS33'' = Inl out_of_range
   \<and> GetCurrentStatus (SerialRead (- 3) []) = Inl out_of_range"
  by (simp add: GetCurrentStatus_def substr_def SerialRead_def)

text \<open>
  Claim C8, as the code has it. A request whose command takes no parameter and whose
  intent is anything but \<open>Get\<close> (so also \<open>Set\<close>) is not refused: once the address
  has been written, the command code, an empty parameter text and the line terminator
  are written, and the encoder reports success.
\<close>

theorem SendCurrentCommand_no_parameter:
  assumes "SendType (CommandPtr c) = ParamNone" and "GetOrSet c \<noteq> Get"
  shows "SendCurrentCommand (length ControllerAdress) c tx =
           (True, tx @ [ControllerAdress, CommandChar (CommandPtr c), [], [CR, LF]])"
  using assms by (simp add: SendCurrentCommand_def Let_def)

theorem SendCurrentCommand_no_parameter_witness:
  "SendType (CommandPtr (SetCommand StopMotion 0 Set)) = ParamNone
   \<and> GetOrSet (SetCommand StopMotion 0 Set) \<noteq> Get
   \<and> SendCurrentCommand 1 (SetCommand StopMotion 0 Set) [] = (True, [''1'', ''ST'', [], [CR, LF]])"
proof -
  have k: "SendType (CommandPtr (SetCommand StopMotion 0 Set)) = ParamNone"
    by (simp add: SetCommand_def CommandLibrary_def)
  have g: "GetOrSet (SetCommand StopMotion 0 Set) \<noteq> Get"
    by (simp add: SetCommand_def)
  have c: "CommandChar (CommandPtr (SetCommand StopMotion 0 Set)) = ''ST''"
    by (simp add: SetCommand_def CommandLibrary_def)
  show ?thesis
    using SendCurrentCommand_no_parameter [OF k g, of "[]"] k g c
    by (simp add: ControllerAdress_def)
qed

theorem SendCurrentCommand_set_without_parameter_counterexample:
  "SendType (CommandPtr (SetCommand HomeSearch 0 Set)) = ParamNone
   \<and> GetOrSet (SetCommand HomeSearch 0 Set) = Set
   \<and> SendCurrentCommand 1 (SetCommand HomeSearch 0 Set) [] = (True, [''1'', ''OR'', [], [CR, LF]])"
  by (simp add: SendCurrentCommand_def SetCommand_def CommandLibrary_def ControllerAdress_def)

section \<open>Properties of the stage move\<close>













section \<open>Properties of the convergence helper\<close>


lemma time_after_step: "time_after c i \<le> time_after c (Suc i)"
  by simp









section \<open>Properties of the settings loader\<close>

subsection \<open>The loader builds the grouped table of the settings it extracts\<close>

lemma settings_less_equiv: "(\<not> settings_less a b \<and> \<not> settings_less b a) \<longleftrightarrow> a = b"
  by (cases a, cases b) (auto simp: settings_less_def)

lemma settings_eq_iff: "settings_eq a b \<longleftrightarrow> a = b"
  by (cases a, cases b) (auto simp: settings_eq_def)

lemma map_find_Cons: "map_find ((k', n) # m) k = (if k' = k then Some n else map_find m k)"
  using settings_less_equiv [of k' k] by auto

lemma map_increment_Cons:
  "map_increment ((k', n) # m) k = (if k' = k then (k', n + 1) # m else (k', n) # map_increment m k)"
  using settings_less_equiv [of k' k] by auto

lemma map_find_increment:
  "map_find (map_increment m k) k' = None \<longleftrightarrow> k' \<noteq> k \<and> map_find m k' = None"
proof (induction m)
  case Nil
  show ?case by (auto simp: map_find_Cons simp del: map_find.simps(2))
next
  case (Cons e m)
  then show ?case
    by (cases e)
      (auto simp: map_find_Cons map_increment_Cons simp del: map_find.simps(2) map_increment.simps(2))
qed

lemma first_appearances_snoc:
  "first_appearances (ps @ [x]) = (if x \<in> set ps then first_appearances ps else first_appearances ps @ [x])"
  by (simp add: first_appearances_def)

lemma first_appearances_set: "set (first_appearances ps) = set ps"
  by (simp add: first_appearances_def)

lemma first_appearances_distinct: "distinct (first_appearances ps)"
  by (simp add: first_appearances_def)

lemma increment_first_distinct:
  "distinct ys \<Longrightarrow>
   increment_first x (map (\<lambda>s. (s, f s)) ys) = map (\<lambda>s. (s, if s = x then f s + 1 else f s)) ys"
  by (induction ys) (auto simp: settings_eq_iff)

lemma grouped_table_snoc_new:
  "x \<notin> set ps \<Longrightarrow> grouped_table (ps @ [x]) = grouped_table ps @ [(x, 1)]"
  by (auto simp: grouped_table_def first_appearances_snoc first_appearances_set)

lemma grouped_table_snoc_old:
  "x \<in> set ps \<Longrightarrow> grouped_table (ps @ [x]) = increment_first x (grouped_table ps)"
  by (simp add: grouped_table_def first_appearances_snoc increment_first_distinct
      first_appearances_distinct)

lemma add_setting_grouped:
  assumes "\<forall>k. map_find sc k = None \<longleftrightarrow> k \<notin> set ps"
  shows "\<exists>sc'. add_setting x (grouped_table ps, sc) = (grouped_table (ps @ [x]), sc')
               \<and> (\<forall>k. map_find sc' k = None \<longleftrightarrow> k \<notin> set (ps @ [x]))"
proof (cases "x \<in> set ps")
  case True
  then have "map_find sc x \<noteq> None" using assms by simp
  then obtain n where found: "map_find sc x = Some n" by (cases "map_find sc x") auto
  have "add_setting x (grouped_table ps, sc)
        = (grouped_table (ps @ [x]), map_increment (map_increment sc x) x)"
    using found True by (simp add: add_setting_def grouped_table_snoc_old)
  moreover have "\<forall>k. map_find (map_increment (map_increment sc x) x) k = None
                    \<longleftrightarrow> k \<notin> set (ps @ [x])"
    using assms by (simp add: map_find_increment)
  ultimately show ?thesis by blast
next
  case False
  then have missing: "map_find sc x = None" using assms by simp
  have "add_setting x (grouped_table ps, sc) = (grouped_table (ps @ [x]), map_increment sc x)"
    using missing False by (simp add: add_setting_def grouped_table_snoc_new)
  moreover have "\<forall>k. map_find (map_increment sc x) k = None \<longleftrightarrow> k \<notin> set (ps @ [x])"
    using assms by (simp add: map_find_increment)
  ultimately show ?thesis by blast
qed

lemma settings_loop_grouped:
  assumes "\<forall>k. map_find sc k = None \<longleftrightarrow> k \<notin> set ps"
  shows "settings_loop held i lines (grouped_table ps, sc)
         = grouped_table (ps @ extracted_settings held i lines)"
  using assms
proof (induction lines arbitrary: ps sc i)
  case Nil
  then show ?case by simp
next
  case (Cons line lines)
  let ?cur = "row_settings (held i) line"
  obtain sc' where step: "add_setting ?cur (grouped_table ps, sc) = (grouped_table (ps @ [?cur]), sc')"
    and inv: "\<forall>k. map_find sc' k = None \<longleftrightarrow> k \<notin> set (ps @ [?cur])"
    using add_setting_grouped [OF Cons.prems, of ?cur] by blast
  show ?case
    using Cons.IH [OF inv, of "Suc i"] step by simp
qed

lemma readSettingsOrdered_grouped:
  "readSettingsOrdered held file = grouped_table (extracted_settings held 0 (data_lines file))"
proof -
  have empty: "grouped_table [] = []" by (simp add: grouped_table_def first_appearances_def)
  have inv: "\<forall>k. map_find [] k = None \<longleftrightarrow> k \<notin> set []" by simp
  show ?thesis
    using settings_loop_grouped [OF inv, of held 0 "data_lines file"]
    by (simp add: readSettingsOrdered_def empty)
qed

lemma grouped_table_total: "sum_list (map snd (grouped_table ps)) = int (length ps)"
proof -
  have "sum_list (map snd (grouped_table ps)) = (\<Sum>s\<leftarrow>first_appearances ps. int (count_list ps s))"
    by (simp add: grouped_table_def comp_def)
  also have "\<dots> = (\<Sum>s\<in>set ps. int (count_list ps s))"
    by (simp add: sum_list_distinct_conv_sum_set first_appearances_distinct first_appearances_set)
  also have "\<dots> = int (\<Sum>s\<in>set ps. count_list ps s)" by simp
  also have "\<dots> = int (length ps)" by (simp add: sum_count_set)
  finally show ?thesis .
qed

lemma grouped_table_keys: "map fst (grouped_table ps) = first_appearances ps"
  by (simp add: grouped_table_def comp_def)

lemma grouped_table_counts:
  "entry \<in> set (grouped_table ps) \<Longrightarrow> snd entry = int (count_list ps (fst entry))"
  by (auto simp: grouped_table_def)

lemma extracted_settings_length: "length (extracted_settings held i lines) = length lines"
  by (induction lines arbitrary: i) simp_all

subsection \<open>What the stream extraction makes of a row\<close>

lemma split_fields_nonempty: "split_fields cs field \<noteq> []"
  by (induction cs arbitrary: field) auto

lemma join_split_fields: "join_fields (split_fields cs field) = field @ cs"
proof (induction cs arbitrary: field)
  case Nil
  show ?case by simp
next
  case (Cons c cs)
  show ?case
  proof (cases "c = CHR '',''")
    case True
    obtain g fs where sp: "split_fields cs [] = g # fs"
      using split_fields_nonempty [of cs "[]"] by (cases "split_fields cs []") auto
    have "join_fields (g # fs) = cs" using Cons.IH [of "[]"] sp by simp
    then show ?thesis using True sp by simp
  next
    case False
    then show ?thesis using Cons.IH [of "field @ [c]"] by simp
  qed
qed

lemma isdigit_not_space_sign: "isdigit c \<Longrightarrow> \<not> isspace c \<and> c \<noteq> CHR ''-'' \<and> c \<noteq> CHR ''+''"
  by (auto simp: isdigit_def isspace_def)

lemma digits_then_rest:
  assumes "list_all isdigit ds" and "rest = [] \<or> \<not> isdigit (hd rest)"
  shows "takeWhile isdigit (ds @ rest) = ds" and "dropWhile isdigit (ds @ rest) = rest"
proof -
  have all: "\<forall>c \<in> set ds. isdigit c" using assms(1) by (simp add: list_all_iff)
  have "takeWhile isdigit rest = []" "dropWhile isdigit rest = rest"
    using assms(2) by (cases rest; auto)+
  then show "takeWhile isdigit (ds @ rest) = ds" and "dropWhile isdigit (ds @ rest) = rest"
    using all by simp_all
qed

lemma extract_int_field:
  assumes "numeric_field f = Some v" and "rest = [] \<or> \<not> isdigit (hd rest)"
  shows "extract_int \<lparr>unread = f @ rest, failbit = False\<rparr>
         = (Some v, \<lparr>unread = rest, failbit = False\<rparr>)"
proof -
  from assms(1) obtain c cs where f: "f = c # cs"
    by (cases f) (auto simp: numeric_field_def)
  show ?thesis
  proof (cases "c = CHR ''-''")
    case True
    from assms(1) have ds: "cs \<noteq> []" "list_all isdigit cs"
      and v: "v = - digits_value cs" "in_int_range v"
      unfolding f numeric_field_def using True by (auto simp: Let_def split: if_splits)
    have sp: "\<not> isspace (CHR ''-'')" by (simp add: isspace_def)
    have sk: "dropWhile isspace (CHR ''-'' # cs @ rest) = CHR ''-'' # cs @ rest"
      using sp by simp
    note tw = digits_then_rest [OF ds(2) assms(2)]
    show ?thesis
      using True ds(1) v sk tw
      by (simp add: extract_int_def f Let_def in_int_range_def del: takeWhile.simps dropWhile.simps)
  next
    case False
    from assms(1) have ds: "list_all isdigit (c # cs)"
      and v: "v = digits_value (c # cs)" "in_int_range v"
      unfolding f numeric_field_def using False by (auto simp: Let_def split: if_splits)
    have "isdigit c" using ds by simp
    then have c: "\<not> isspace c" "c \<noteq> CHR ''+''"
      using isdigit_not_space_sign by blast+
    have sk: "dropWhile isspace (c # cs @ rest) = c # cs @ rest"
      using c(1) by simp
    have tw: "takeWhile isdigit (c # cs @ rest) = c # cs" "dropWhile isdigit (c # cs @ rest) = rest"
      using digits_then_rest [OF ds assms(2)] by simp_all
    show ?thesis
      using False c v sk tw
      by (simp add: extract_int_def f Let_def in_int_range_def del: takeWhile.simps dropWhile.simps)
  qed
qed

lemma extract_int_junk:
  assumes "\<not> isspace c" and "\<not> isdigit c" and "c \<noteq> CHR ''-''" and "c \<noteq> CHR ''+''"
  shows "fst (extract_int \<lparr>unread = c # cs, failbit = False\<rparr>) = Some 0"
  using assms by (simp add: extract_int_def Let_def)

lemma extract_char_comma:
  "extract_char \<lparr>unread = CHR '','' # cs, failbit = False\<rparr> = (Some (CHR '',''), \<lparr>unread = cs, failbit = False\<rparr>)"
  by (simp add: extract_char_def isspace_def)

lemma comma_not_digit: "\<not> isdigit (CHR '','')"
  by (simp add: isdigit_def)

lemma row_settings_fields:
  assumes "numeric_field f1 = Some layer" "numeric_field f2 = Some i" "numeric_field f3 = Some e"
    "numeric_field f4 = Some d"
  shows "row_settings held (f1 @ CHR '','' # f2 @ CHR '','' # f3 @ CHR '','' # f4)
         = \<lparr>intensity = i, exposureTime = e, darkTime = d\<rparr>"
proof -
  have c: "\<And>cs. (CHR '','' # cs = [] \<or> \<not> isdigit (hd (CHR '','' # cs)))"
    by (simp add: comma_not_digit)
  show ?thesis
    using extract_int_field [OF assms(1) c]
      extract_int_field [OF assms(2) c]
      extract_int_field [OF assms(3) c]
      extract_int_field [OF assms(4), of "[]"]
    by (simp add: row_settings_def parse_row_def extract_char_comma)
qed

lemma row_settings_carried:
  assumes "carried_triple line = Some s"
  shows "row_settings held line = s"
proof -
  from assms obtain f1 f2 f3 f4 layer i e d where
    sp: "split_fields line [] = [f1, f2, f3, f4]"
    and n: "numeric_field f1 = Some layer" "numeric_field f2 = Some i" "numeric_field f3 = Some e"
      "numeric_field f4 = Some d"
    and s: "s = \<lparr>intensity = i, exposureTime = e, darkTime = d\<rparr>"
    unfolding carried_triple_def by (auto split: list.splits option.splits)
  have "line = join_fields (split_fields line [])" by (simp add: join_split_fields)
  then have "line = f1 @ CHR '','' # f2 @ CHR '','' # f3 @ CHR '','' # f4"
    unfolding sp by simp
  then show ?thesis using row_settings_fields [OF n, of held] s by simp
qed

lemma row_settings_bad_dark_time:
  assumes "numeric_field f1 = Some layer" "numeric_field f2 = Some i" "numeric_field f3 = Some e"
    and "\<not> isspace c" "\<not> isdigit c" "c \<noteq> CHR ''-''" "c \<noteq> CHR ''+''"
  shows "row_settings held (f1 @ CHR '','' # f2 @ CHR '','' # f3 @ CHR '','' # c # cs)
         = \<lparr>intensity = i, exposureTime = e, darkTime = 0\<rparr>"
proof -
  have cm: "\<And>cs. (CHR '','' # cs = [] \<or> \<not> isdigit (hd (CHR '','' # cs)))"
    by (simp add: comma_not_digit)
  obtain v iss where ex: "extract_int \<lparr>unread = c # cs, failbit = False\<rparr> = (v, iss)"
    by (cases "extract_int \<lparr>unread = c # cs, failbit = False\<rparr>")
  then have v: "v = Some 0" using extract_int_junk [OF assms(4-7), of cs] by simp
  show ?thesis
    using ex v
      extract_int_field [OF assms(1) cm]
      extract_int_field [OF assms(2) cm]
      extract_int_field [OF assms(3) cm]
    by (simp add: row_settings_def parse_row_def extract_char_comma)
qed

lemma extracted_settings_carried:
  "\<forall>line \<in> set lines. carried_triple line \<noteq> None \<Longrightarrow>
   extracted_settings held i lines = List.map_filter carried_triple lines"
proof (induction lines arbitrary: i)
  case Nil
  show ?case by simp
next
  case (Cons line lines)
  then obtain s where s: "carried_triple line = Some s" by auto
  show ?case
    using Cons.IH [of "Suc i"] Cons.prems s row_settings_carried [OF s, of "held i"] by simp
qed

lemma count_map_filter:
  "count_list (List.map_filter f xs) s = length (filter (\<lambda>x. f x = Some s) xs)"
  by (induction xs) (auto split: option.splits)

lemma getlines_no_LF:
  "LF \<notin> set h \<Longrightarrow> getlines h acc = (if acc @ h = [] then [] else [acc @ h])"
  by (induction h arbitrary: acc) auto

lemma getlines_one_line: "LF \<notin> set h \<Longrightarrow> getlines (h @ [LF]) acc = [acc @ h]"
  by (induction h arbitrary: acc) auto

subsection \<open>The table invariant\<close>

text \<open>
  Claim C6, as the code has it. For every file, and whatever the uninitialised locals of
  the loader hold, the table has no two entries with equal settings, its entries stand in
  the order in which their settings first appear among the settings that the stream
  extraction yields for the lines after the header (one for each line), and the count of
  each entry is the number of lines for which the extraction yields exactly these
  settings. If every line after the header consists of exactly four comma-separated
  decimal integers of the \<open>int\<close> range, then the extraction yields the triple that the
  row carries: the table is the grouped table of the carried triples, and the count of
  each entry is the number of rows carrying its triple. For other files the count may
  differ from the number of rows carrying the triple.
\<close>
theorem readSettingsOrdered_table_invariant:
  "distinct (map fst (readSettingsOrdered held file))
   \<and> map fst (readSettingsOrdered held file)
       = first_appearances (extracted_settings held 0 (data_lines file))
   \<and> (\<forall>entry \<in> set (readSettingsOrdered held file).
         snd entry = int (count_list (extracted_settings held 0 (data_lines file)) (fst entry)))
   \<and> length (extracted_settings held 0 (data_lines file)) = length (data_lines file)
   \<and> ((\<forall>line \<in> set (data_lines file). carried_triple line \<noteq> None) \<longrightarrow>
         readSettingsOrdered held file
           = grouped_table (List.map_filter carried_triple (data_lines file))
         \<and> map fst (readSettingsOrdered held file)
             = first_appearances (List.map_filter carried_triple (data_lines file))
         \<and> (\<forall>entry \<in> set (readSettingsOrdered held file).
               snd entry = int (rows_carrying (data_lines file) (fst entry))))"
proof -
  let ?ex = "extracted_settings held 0 (data_lines file)"
  have g: "readSettingsOrdered held file = grouped_table ?ex"
    by (rule readSettingsOrdered_grouped)
  have keys: "map fst (readSettingsOrdered held file) = first_appearances ?ex"
    unfolding g by (rule grouped_table_keys)
  have dist: "distinct (map fst (readSettingsOrdered held file))"
    unfolding keys by (rule first_appearances_distinct)
  have counts: "\<forall>entry \<in> set (readSettingsOrdered held file).
         snd entry = int (count_list ?ex (fst entry))"
    unfolding g using grouped_table_counts by blast
  have len: "length ?ex = length (data_lines file)"
    by (rule extracted_settings_length)
  have wf: "readSettingsOrdered held file
           = grouped_table (List.map_filter carried_triple (data_lines file))
         \<and> map fst (readSettingsOrdered held file)
             = first_appearances (List.map_filter carried_triple (data_lines file))
         \<and> (\<forall>entry \<in> set (readSettingsOrdered held file).
               snd entry = int (rows_carrying (data_lines file) (fst entry)))"
    if "\<forall>line \<in> set (data_lines file). carried_triple line \<noteq> None"
  proof -
    have same: "?ex = List.map_filter carried_triple (data_lines file)"
      using that by (rule extracted_settings_carried)
    have "count_list ?ex s = rows_carrying (data_lines file) s" for s
      unfolding same rows_carrying_def by (rule count_map_filter)
    then show ?thesis using g keys counts same by simp
  qed
  show ?thesis using dist keys counts len wf by blast
qed

theorem readSettingsOrdered_table_invariant_witness:
  "readSettingsOrdered nothing_held
     (Some (''Layer,Intensity,Exposure,Dark'' @ [LF] @ ''1,10,5,100'' @ [LF]
            @ ''2,20,8,150'' @ [LF] @ ''3,10,5,100'' @ [LF]))
   = [(\<lparr>intensity = 10, exposureTime = 5, darkTime = 100\<rparr>, 2),
      (\<lparr>intensity = 20, exposureTime = 8, darkTime = 150\<rparr>, 1)]
   \<and> int (rows_carrying
       (data_lines (Some (''Layer,Intensity,Exposure,Dark'' @ [LF] @ ''1,10,5,100'' @ [LF]
            @ ''2,20,8,150'' @ [LF] @ ''3,10,5,100'' @ [LF])))
       \<lparr>intensity = 10, exposureTime = 5, darkTime = 100\<rparr>) = 2
   \<and> int (rows_carrying
       (data_lines (Some (''Layer,Intensity,Exposure,Dark'' @ [LF] @ ''1,10,5,100'' @ [LF]
            @ ''2,20,8,150'' @ [LF] @ ''3,10,5,100'' @ [LF])))
       \<lparr>intensity = 20, exposureTime = 8, darkTime = 150\<rparr>) = 1"
proof -
  let ?file = "Some (''Layer,Intensity,Exposure,Dark'' @ [LF] @ ''1,10,5,100'' @ [LF]
            @ ''2,20,8,150'' @ [LF] @ ''3,10,5,100'' @ [LF])"
  let ?S1 = "\<lparr>intensity = 10, exposureTime = 5, darkTime = 100\<rparr>"
  let ?S2 = "\<lparr>intensity = 20, exposureTime = 8, darkTime = 150\<rparr>"
  have run: "readSettingsOrdered nothing_held ?file = [(?S1, 2), (?S2, 1)]"
    by code_simp
  have rows: "\<forall>line \<in> set (data_lines ?file). carried_triple line \<noteq> None"
    by code_simp
  note inv = readSettingsOrdered_table_invariant [of nothing_held ?file]
  from inv rows have "\<forall>entry \<in> set (readSettingsOrdered nothing_held ?file).
               snd entry = int (rows_carrying (data_lines ?file) (fst entry))"
    by blast
  then have "\<forall>entry \<in> set [(?S1, 2), (?S2, 1)].
               snd entry = int (rows_carrying (data_lines ?file) (fst entry))"
    unfolding run .
  then have a: "int (rows_carrying (data_lines ?file) ?S1) = 2"
    and b: "int (rows_carrying (data_lines ?file) ?S2) = 1"
    by simp_all
  show ?thesis using run a b by blast
qed

theorem readSettingsOrdered_miscounted_row_counterexample:
  "readSettingsOrdered nothing_held
     (Some (''Layer,Intensity,Exposure,Dark'' @ [LF] @ ''7,30,4,n/a'' @ [LF]
            @ ''8,30,4,0'' @ [LF]))
   = [(\<lparr>intensity = 30, exposureTime = 4, darkTime = 0\<rparr>, 2)]
   \<and> rows_carrying
       (data_lines (Some (''Layer,Intensity,Exposure,Dark'' @ [LF] @ ''7,30,4,n/a'' @ [LF]
            @ ''8,30,4,0'' @ [LF])))
       \<lparr>intensity = 30, exposureTime = 4, darkTime = 0\<rparr> = 1"
  by code_simp

subsection \<open>Rows that are not numeric\<close>

text \<open>
  Claim C7, as the code has it. The loader has no parse error to report and it skips no
  line: for every file the repeat counts of the table add up to the number of lines after
  the header, whatever their text. A row whose first three fields are decimal integers of
  the \<open>int\<close> range and whose fourth field begins with a character that is not white
  space, a digit or a sign is taken as settings with the intensity and exposure time of
  the row and dark time 0.
\<close>
theorem readSettingsOrdered_absorbs_rows:
  "sum_list (map snd (readSettingsOrdered held file)) = int (length (data_lines file))
   \<and> (numeric_field f1 = Some layer \<and> numeric_field f2 = Some i \<and> numeric_field f3 = Some e
       \<and> \<not> isspace c \<and> \<not> isdigit c \<and> c \<noteq> CHR ''-'' \<and> c \<noteq> CHR ''+'' \<longrightarrow>
        row_settings prior (f1 @ '','' @ f2 @ '','' @ f3 @ '','' @ c # cs)
          = \<lparr>intensity = i, exposureTime = e, darkTime = 0\<rparr>)"
proof (intro conjI impI)
  show "sum_list (map snd (readSettingsOrdered held file)) = int (length (data_lines file))"
    by (simp add: readSettingsOrdered_grouped grouped_table_total extracted_settings_length)
next
  assume "numeric_field f1 = Some layer \<and> numeric_field f2 = Some i \<and> numeric_field f3 = Some e
       \<and> \<not> isspace c \<and> \<not> isdigit c \<and> c \<noteq> CHR ''-'' \<and> c \<noteq> CHR ''+''"
  then show "row_settings prior (f1 @ '','' @ f2 @ '','' @ f3 @ '','' @ c # cs)
          = \<lparr>intensity = i, exposureTime = e, darkTime = 0\<rparr>"
    using row_settings_bad_dark_time [of f1 layer f2 i f3 e c prior cs] by simp
qed

theorem readSettingsOrdered_absorbs_rows_witness:
  "sum_list (map snd (readSettingsOrdered nothing_held
       (Some (''Layer,Intensity,Exposure,Dark'' @ [LF] @ ''3,25,6,abc'' @ [LF] @ [LF]))))
     = 2
   \<and> row_settings (1, 2, 3) ''3,25,6,abc'' = \<lparr>intensity = 25, exposureTime = 6, darkTime = 0\<rparr>"
proof -
  let ?file = "Some (''Layer,Intensity,Exposure,Dark'' @ [LF] @ ''3,25,6,abc'' @ [LF] @ [LF])"
  have n: "numeric_field ''3'' = Some 3 \<and> numeric_field ''25'' = Some 25 \<and> numeric_field ''6'' = Some 6"
    by code_simp
  have junk: "\<not> isspace (CHR ''a'') \<and> \<not> isdigit (CHR ''a'') \<and> CHR ''a'' \<noteq> CHR ''-''
              \<and> CHR ''a'' \<noteq> CHR ''+''"
    by (simp add: isspace_def isdigit_def)
  have rows: "int (length (data_lines ?file)) = 2"
    by code_simp
  note absorbed = readSettingsOrdered_absorbs_rows
    [of nothing_held ?file "''3''" 3 "''25''" 25 "''6''" 6 "CHR ''a''" "(1, 2, 3)" "''bc''"]
  from absorbed rows have total: "sum_list (map snd (readSettingsOrdered nothing_held ?file)) = 2"
    by simp
  from absorbed n junk
  have "row_settings (1, 2, 3) (''3'' @ '','' @ ''25'' @ '','' @ ''6'' @ '','' @ CHR ''a'' # ''bc'')
        = \<lparr>intensity = 25, exposureTime = 6, darkTime = 0\<rparr>"
    by blast
  then have bad: "row_settings (1, 2, 3) ''3,25,6,abc''
        = \<lparr>intensity = 25, exposureTime = 6, darkTime = 0\<rparr>"
    by simp
  show ?thesis using total bad by blast
qed

theorem readSettingsOrdered_bad_row_counterexample:
  "readSettingsOrdered nothing_held
     (Some (''Layer,Intensity,Exposure,Dark'' @ [LF] @ ''1,10,5,abc'' @ [LF]))
   = [(\<lparr>intensity = 10, exposureTime = 5, darkTime = 0\<rparr>, 1)]"
  by code_simp

subsection \<open>Files without data rows\<close>

text \<open>
  Claim C10. A file that cannot be opened, and a file that holds nothing but the header
  line (with or without its line feed), give the empty table and no fault. A dynamic run
  with the empty table applies no settings, shows no image and moves no stage: after the
  first image has been loaded it goes straight to the shutdown sequence.
\<close>
theorem readSettingsOrdered_no_rows:
  "readSettingsOrdered held None = []
   \<and> (LF \<notin> set header \<longrightarrow>
        readSettingsOrdered held (Some header) = []
        \<and> readSettingsOrdered held (Some (header @ [LF])) = [])
   \<and> (dirReadable r \<and> numImages r \<noteq> 0 \<and> controllerInit r \<longrightarrow>
        map_option outcome_trace (RunFullDynamic r [] ticks) =
          Some ([LoadFromFile 0 0 (firstLoadOk r), GetPosition, LogFinalPosition, Home]
                @ (if homeSent r then [Log ''Homed''] else [])
                @ [SMC100CClose, Log ''Closed connection'', WindowClose]))"
proof (intro conjI impI)
  show "readSettingsOrdered held None = []"
    by (simp add: readSettingsOrdered_def data_lines_def)
next
  assume h: "LF \<notin> set header"
  show "readSettingsOrdered held (Some header) = []"
    using h by (simp add: readSettingsOrdered_def data_lines_def getlines_no_LF)
  show "readSettingsOrdered held (Some (header @ [LF])) = []"
    using h by (simp add: readSettingsOrdered_def data_lines_def getlines_one_line)
next
  assume "dirReadable r \<and> numImages r \<noteq> 0 \<and> controllerInit r"
  then show "map_option outcome_trace (RunFullDynamic r [] ticks) =
          Some ([LoadFromFile 0 0 (firstLoadOk r), GetPosition, LogFinalPosition, Home]
                @ (if homeSent r then [Log ''Homed''] else [])
                @ [SMC100CClose, Log ''Closed connection'', WindowClose])"
    by (simp add: RunFullDynamic_def shutdown_def initial_state_def emit_def)
qed

theorem readSettingsOrdered_no_rows_witness:
  "LF \<notin> set ''Layer,Intensity,Exposure,Dark''
   \<and> readSettingsOrdered nothing_held None = []
   \<and> readSettingsOrdered nothing_held (Some ''Layer,Intensity,Exposure,Dark'') = []
   \<and> readSettingsOrdered nothing_held (Some (''Layer,Intensity,Exposure,Dark'' @ [LF])) = []
   \<and> map_option outcome_trace (RunFullDynamic (good_rig 5) [] (steady_ticks 3)) =
        Some [LoadFromFile 0 0 True, GetPosition, LogFinalPosition, Home, Log ''Homed'',
              SMC100CClose, Log ''Closed connection'', WindowClose]"
proof -
  have h: "LF \<notin> set ''Layer,Intensity,Exposure,Dark''"
    by (simp add: LF_def)
  have r: "dirReadable (good_rig 5) \<and> numImages (good_rig 5) \<noteq> 0 \<and> controllerInit (good_rig 5)"
    by (simp add: good_rig_def)
  have s: "homeSent (good_rig 5)" "firstLoadOk (good_rig 5)"
    by (simp_all add: good_rig_def)
  show ?thesis
    using readSettingsOrdered_no_rows
      [of nothing_held "''Layer,Intensity,Exposure,Dark''" "good_rig 5" "steady_ticks 3"] h r s
    by simp
qed

section \<open>Properties of the print loop\<close>

subsection \<open>The loop invariant\<close>

lemma in_flight_append: "in_flight (tr @ es) = in_flight tr + in_flight es"
  by (simp add: in_flight_def)

lemma last_load_append:
  "last_load (tr @ es) slot = foldl (note_load slot) (last_load tr slot) es"
  by (simp add: last_load_def)

lemma load_made_emit:
  "(\<And>slot seen. foldl (note_load slot) seen es = seen) \<Longrightarrow>
   load_made (emit es s) slot img = load_made s slot img"
  by (simp add: load_made_def emit_def last_load_append split: option.splits)

lemma initial_invariant: "loop_invariant (initial_state r)"
  by (simp add: loop_invariant_def initial_state_def in_flight_def load_made_def last_load_def)

lemma poll_events_keeps:
  "loop_invariant s \<Longrightarrow> loop_invariant (poll_events t s)"
  "displayImage (poll_events t s) = displayImage s"
  "currentTextureIndex (poll_events t s) = currentTextureIndex s"
  "currentImageIndex (poll_events t s) = currentImageIndex s"
  "darkTimeStart (poll_events t s) = darkTimeStart s"
  "isStageThreadRunning (poll_events t s) = isStageThreadRunning s"
  "in_flight (trace (poll_events t s)) = in_flight (trace s)"
  "count_list (trace (poll_events t s)) LaunchMoveStage = count_list (trace s) LaunchMoveStage"
  by (auto simp: poll_events_def emit_def loop_invariant_def in_flight_def load_made_def
      last_load_append split: option.splits)

lemma RunFull_light_keeps:
  "loop_invariant s \<Longrightarrow> loop_invariant (RunFull_light m e l t s)"
  "currentTextureIndex (RunFull_light m e l t s) = currentTextureIndex s"
  "displayImage (RunFull_light m e l t s) \<longrightarrow> displayImage s"
  "isStageThreadRunning (RunFull_light m e l t s) = isStageThreadRunning s"
  "in_flight (trace (RunFull_light m e l t s)) = in_flight (trace s)"
  "count_list (trace (RunFull_light m e l t s)) LaunchMoveStage = count_list (trace s) LaunchMoveStage"
  by (auto simp: RunFull_light_def show_image_def emit_def loop_invariant_def in_flight_def Let_def
      load_made_def last_load_append split: option.splits)

lemma other_texture: "i < 2 \<Longrightarrow> 1 - i \<noteq> i \<and> 1 - i < (2::nat) \<and> 1 - (1 - i) = i"
  by arith

lemma begin_dark_keeps:
  "loop_invariant s \<Longrightarrow> loop_invariant (begin_dark s)"
  "currentTextureIndex (begin_dark s) = currentTextureIndex s"
  "currentImageIndex (begin_dark s) = currentImageIndex s"
  "darkTimeStart (begin_dark s) = darkTimeStart s"
  "displayImage (begin_dark s) = displayImage s"
  "isStageThreadRunning (begin_dark s) = isStageThreadRunning s"
  "count_list (trace (begin_dark s)) LaunchMoveStage = count_list (trace s) LaunchMoveStage"
  by (auto simp: begin_dark_def emit_def loop_invariant_def in_flight_def Let_def load_made_def
      last_load_append split: option.splits)

lemma launch_stage_move_keeps:
  "loop_invariant s \<Longrightarrow> loop_invariant (launch_stage_move s)"
  "currentTextureIndex (launch_stage_move s) = currentTextureIndex s"
  "currentImageIndex (launch_stage_move s) = currentImageIndex s"
  "darkTimeStart (launch_stage_move s) = darkTimeStart s"
  "displayImage (launch_stage_move s) = displayImage s"
  "count_list (trace s) LaunchMoveStage < count_list (trace (launch_stage_move s)) LaunchMoveStage
     \<longrightarrow> \<not> isStageThreadRunning s"
  by (auto simp: launch_stage_move_def emit_def loop_invariant_def in_flight_def load_made_def
      last_load_append split: option.splits)

lemma load_next_image_invariant:
  assumes "loop_invariant s"
  shows "loop_invariant (load_next_image n t s)"
proof -
  have i: "currentTextureIndex s < 2" using assms by (simp add: loop_invariant_def)
  note o = other_texture [OF i]
  show ?thesis
    using assms o
    by (auto simp: load_next_image_def emit_def loop_invariant_def in_flight_def nth_list_update
        load_made_def last_load_append split: option.splits)
qed

lemma load_next_image_keeps:
  "currentTextureIndex (load_next_image n t s) = currentTextureIndex s"
  "currentImageIndex (load_next_image n t s) = currentImageIndex s"
  "darkTimeStart (load_next_image n t s) = darkTimeStart s"
  "displayImage (load_next_image n t s) = displayImage s"
  "count_list (trace (load_next_image n t s)) LaunchMoveStage = count_list (trace s) LaunchMoveStage"
  by (simp_all add: load_next_image_def emit_def)

lemma poll_stage_move_keeps:
  "loop_invariant s \<Longrightarrow> loop_invariant (poll_stage_move t s)"
  "currentTextureIndex (poll_stage_move t s) = currentTextureIndex s"
  "currentImageIndex (poll_stage_move t s) = currentImageIndex s"
  "darkTimeStart (poll_stage_move t s) = darkTimeStart s"
  "displayImage (poll_stage_move t s) = displayImage s"
  "count_list (trace (poll_stage_move t s)) LaunchMoveStage = count_list (trace s) LaunchMoveStage"
  by (auto simp: poll_stage_move_def emit_def loop_invariant_def in_flight_def load_made_def
      last_load_append split: option.splits)

lemma dark_work_keeps:
  "currentTextureIndex (dark_work n t s) = currentTextureIndex s"
  "currentImageIndex (dark_work n t s) = currentImageIndex s"
  "darkTimeStart (dark_work n t s) = darkTimeStart s"
  "displayImage (dark_work n t s) = displayImage s"
  by (simp_all add: dark_work_def poll_stage_move_keeps load_next_image_keeps
      launch_stage_move_keeps begin_dark_keeps)

lemma dark_work_invariant:
  "loop_invariant s \<Longrightarrow> loop_invariant (dark_work n t s)"
  by (simp add: dark_work_def poll_stage_move_keeps load_next_image_invariant
      launch_stage_move_keeps begin_dark_keeps)

lemma dark_work_launch:
  "count_list (trace s) LaunchMoveStage < count_list (trace (dark_work n t s)) LaunchMoveStage
   \<longrightarrow> \<not> isStageThreadRunning s"
  using launch_stage_move_keeps(6) [of "begin_dark s"]
  by (simp add: dark_work_def poll_stage_move_keeps load_next_image_keeps begin_dark_keeps)

lemma swap_buffers_invariant:
  assumes "loop_invariant s" and "nextImageLoaded s"
  shows "loop_invariant (swap_buffers s)"
proof -
  have i: "currentTextureIndex s < 2" using assms by (simp add: loop_invariant_def)
  note o = other_texture [OF i]
  show ?thesis
    using assms o
    by (auto simp: swap_buffers_def emit_def loop_invariant_def in_flight_def load_made_def
        last_load_append split: option.splits)
qed

lemma swap_buffers_keeps:
  "isStageThreadRunning (swap_buffers s) = isStageThreadRunning s"
  "in_flight (trace (swap_buffers s)) = in_flight (trace s)"
  "count_list (trace (swap_buffers s)) LaunchMoveStage = count_list (trace s) LaunchMoveStage"
  "currentImageIndex (swap_buffers s) = currentImageIndex s + 1"
  "currentTextureIndex (swap_buffers s) = 1 - currentTextureIndex s"
  by (simp_all add: swap_buffers_def emit_def in_flight_def)

lemma RunFull_dark_invariant:
  "loop_invariant s \<Longrightarrow> loop_invariant (RunFull_dark n d t s)"
  by (simp add: RunFull_dark_def Let_def swap_due_def dark_work_invariant swap_buffers_invariant)

lemma RunFull_dark_launch:
  "count_list (trace s) LaunchMoveStage < count_list (trace (RunFull_dark n d t s)) LaunchMoveStage
   \<longrightarrow> \<not> isStageThreadRunning s"
  using dark_work_launch [of s n t]
  by (simp add: RunFull_dark_def Let_def swap_buffers_keeps)

lemma RunFull_dark_swap:
  assumes "currentTextureIndex (RunFull_dark n d t s) \<noteq> currentTextureIndex s
           \<or> (\<not> displayImage s \<and> displayImage (RunFull_dark n d t s))"
  shows "d < now t - darkTimeStart s
         \<and> \<not> isStageThreadRunning (RunFull_dark n d t s)
         \<and> currentImageIndex (RunFull_dark n d t s) = currentImageIndex s + 1
         \<and> currentTextureIndex (RunFull_dark n d t s) = 1 - currentTextureIndex s"
proof (cases "swap_due d t (dark_work n t s)")
  case True
  then show ?thesis
    by (simp add: RunFull_dark_def swap_due_def swap_buffers_keeps dark_work_keeps)
next
  case False
  then have "RunFull_dark n d t s = dark_work n t s" by (simp add: RunFull_dark_def)
  then show ?thesis using assms by (simp add: dark_work_keeps)
qed

lemma emit_log_keeps:
  "loop_invariant s \<Longrightarrow> in_flight es = 0 \<Longrightarrow> (\<And>slot seen. foldl (note_load slot) seen es = seen)
     \<Longrightarrow> loop_invariant (emit es s)"
  "currentTextureIndex (emit es s) = currentTextureIndex s"
  "currentImageIndex (emit es s) = currentImageIndex s"
  "displayImage (emit es s) = displayImage s"
  "isStageThreadRunning (emit es s) = isStageThreadRunning s"
  "trace (emit es s) = trace s @ es"
  by (auto simp: emit_def loop_invariant_def in_flight_append load_made_def last_load_append
      split: option.splits)

lemma emit_nothing: "emit [] s = s"
  by (simp add: emit_def)

lemma RunFull_body_cases:
  assumes "RunFull_body r m d e l t s = (ex, s')"
  obtains (abort) "displayImage s" "ex = Return"
      "s' = emit [Log ''Run Full aborted.''] (poll_events t s)"
  | (light) es where "displayImage s" "ex \<noteq> Return"
      "s' = emit es (RunFull_light m e l t (poll_events t s))"
      "in_flight es = 0" "count_list es LaunchMoveStage = 0" "Home \<notin> set es" "SMC100CClose \<notin> set es"
      "\<And>slot seen. foldl (note_load slot) seen es = seen"
  | (dark) es where "\<not> displayImage s" "ex \<noteq> Return"
      "s' = emit es (RunFull_dark (numImages r) d t (poll_events t s))"
      "in_flight es = 0" "count_list es LaunchMoveStage = 0" "Home \<notin> set es" "SMC100CClose \<notin> set es"
      "\<And>slot seen. foldl (note_load slot) seen es = seen"
proof -
  let ?p = "poll_events t s"
  let ?done = "[Log ''All images shown, exiting program.'', SetCurrent 0]"
  have quiet: "in_flight ?done = 0" "count_list ?done LaunchMoveStage = 0"
    "Home \<notin> set ?done" "SMC100CClose \<notin> set ?done"
    "in_flight [] = 0" "count_list [] LaunchMoveStage = 0"
    "\<And>slot seen. foldl (note_load slot) seen ?done = seen"
    "\<And>slot seen. foldl (note_load slot) seen [] = seen"
    by (simp_all add: in_flight_def)
  have dp: "displayImage ?p = displayImage s" by (rule poll_events_keeps)
  show ?thesis
  proof (cases "displayImage s")
    case True
    show ?thesis
    proof (cases "abortFlag t")
      case True
      then have "ex = Return \<and> s' = emit [Log ''Run Full aborted.''] ?p"
        using assms \<open>displayImage s\<close> dp by (simp add: RunFull_body_def Let_def)
      then show ?thesis using \<open>displayImage s\<close> abort by blast
    next
      case False
      let ?s1 = "RunFull_light m e l t ?p"
      have "(ex = Break \<and> s' = emit ?done ?s1) \<or> (ex = Continue \<and> s' = emit [] ?s1)"
        using assms True False dp
        by (auto simp: RunFull_body_def Let_def emit_nothing split: if_splits)
      then show ?thesis
        using True light [of ?done] light [of "[]"] quiet by fastforce
    qed
  next
    case False
    let ?s1 = "RunFull_dark (numImages r) d t ?p"
    have "(ex = Break \<and> s' = emit ?done ?s1) \<or> (ex = Continue \<and> s' = emit [] ?s1)"
      using assms False dp
      by (auto simp: RunFull_body_def Let_def emit_nothing split: if_splits)
    then show ?thesis
      using False dark [of ?done] dark [of "[]"] quiet by fastforce
  qed
qed

lemma RunFull_body_invariant:
  assumes "loop_invariant s" and "RunFull_body r m d e l t s = (ex, s')"
  shows "loop_invariant s'"
proof -
  have p: "loop_invariant (poll_events t s)" using assms(1) by (rule poll_events_keeps)
  from assms(2) show ?thesis
  proof (cases rule: RunFull_body_cases)
    case abort
    have "in_flight [Log ''Run Full aborted.''] = 0" by (simp add: in_flight_def)
    then show ?thesis using abort p by (simp add: emit_log_keeps)
  next
    case (light es)
    then show ?thesis using p by (simp add: emit_log_keeps RunFull_light_keeps)
  next
    case (dark es)
    then show ?thesis using p by (simp add: emit_log_keeps RunFull_dark_invariant)
  qed
qed

lemma RunFull_reach_invariant:
  "loop_invariant s0 \<Longrightarrow> RunFull_reach r m d e l ticks s0 = Some s \<Longrightarrow> loop_invariant s"
proof (induction ticks arbitrary: s0)
  case Nil
  then show ?case by (simp split: if_splits)
next
  case (Cons t ticks)
  obtain ex s1 where b: "RunFull_body r m d e l t s0 = (ex, s1)"
    by (cases "RunFull_body r m d e l t s0")
  have inv: "loop_invariant s1" using Cons.prems(1) b by (rule RunFull_body_invariant)
  from Cons.prems(2) b have "ex = Continue" and "RunFull_reach r m d e l ticks s1 = Some s"
    by (cases ex; simp split: if_splits)+
  then show ?case using Cons.IH [OF inv] by simp
qed

text \<open>
  Claim C3, as the code has it. Take any state at the head of the loop of \<open>RunFull\<close>
  that a run can reach, and the iteration that follows it. If that iteration swaps the
  textures or turns a dark phase into a light phase, then the dark timer has elapsed, the
  image index is advanced by one, the load of that image into the texture that becomes
  active has been made and has returned, no later load went into that texture, and the
  texture holds the image if that load succeeded (the result of the load is not looked
  at, so after a load that failed the swap is made all the same); and no stage task is in
  flight: every task launched has been joined. If the iteration launches a stage task,
  none was in flight before. At no time is more than one stage task in flight.
\<close>

theorem RunFull_swap_gated:
  assumes "RunFull_reach r m d e l ticks (initial_state r) = Some s"
    and "RunFull_body r m d e l t s = (ex, s')"
  shows "(currentTextureIndex s' \<noteq> currentTextureIndex s \<or> (\<not> displayImage s \<and> displayImage s') \<longrightarrow>
            d < now t - darkTimeStart s
            \<and> currentImageIndex s' = currentImageIndex s + 1
            \<and> currentTextureIndex s' = 1 - currentTextureIndex s
            \<and> load_made s' (currentTextureIndex s') (currentImageIndex s')
            \<and> \<not> isStageThreadRunning s' \<and> in_flight (trace s') = 0)
         \<and> (count_list (trace s) LaunchMoveStage < count_list (trace s') LaunchMoveStage \<longrightarrow>
              \<not> isStageThreadRunning s \<and> in_flight (trace s) = 0)
         \<and> 0 \<le> in_flight (trace s') \<and> in_flight (trace s') \<le> 1"
proof -
  have inv: "loop_invariant s"
    using initial_invariant assms(1) by (rule RunFull_reach_invariant)
  have inv': "loop_invariant s'"
    using inv assms(2) by (rule RunFull_body_invariant)
  have flight: "in_flight (trace s) = (if isStageThreadRunning s then 1 else 0)"
    and flight': "in_flight (trace s') = (if isStageThreadRunning s' then 1 else 0)"
    and loaded: "load_made s' (currentTextureIndex s') (currentImageIndex s')"
    using inv inv' by (simp_all add: loop_invariant_def)
  have bounds: "0 \<le> in_flight (trace s') \<and> in_flight (trace s') \<le> 1"
    using flight' by simp
  from assms(2) have swap: "d < now t - darkTimeStart s
            \<and> currentImageIndex s' = currentImageIndex s + 1
            \<and> currentTextureIndex s' = 1 - currentTextureIndex s
            \<and> \<not> isStageThreadRunning s'"
    if "currentTextureIndex s' \<noteq> currentTextureIndex s \<or> (\<not> displayImage s \<and> displayImage s')"
  proof (cases rule: RunFull_body_cases)
    case abort
    then show ?thesis using that by (simp add: emit_log_keeps poll_events_keeps)
  next
    case (light es)
    then show ?thesis
      using that RunFull_light_keeps(2) [of m e l t "poll_events t s"]
      by (simp add: emit_log_keeps poll_events_keeps)
  next
    case (dark es)
    let ?p = "poll_events t s"
    have "currentTextureIndex (RunFull_dark (numImages r) d t ?p) \<noteq> currentTextureIndex ?p
           \<or> (\<not> displayImage ?p \<and> displayImage (RunFull_dark (numImages r) d t ?p))"
      using that dark by (simp add: emit_log_keeps poll_events_keeps)
    from RunFull_dark_swap [OF this] show ?thesis
      using dark by (simp add: emit_log_keeps poll_events_keeps)
  qed
  from assms(2) have launch: "\<not> isStageThreadRunning s"
    if "count_list (trace s) LaunchMoveStage < count_list (trace s') LaunchMoveStage"
  proof (cases rule: RunFull_body_cases)
    case abort
    then show ?thesis using that by (simp add: emit_log_keeps poll_events_keeps)
  next
    case (light es)
    then show ?thesis
      using that by (simp add: emit_log_keeps poll_events_keeps RunFull_light_keeps)
  next
    case (dark es)
    then show ?thesis
      using that RunFull_dark_launch [of "poll_events t s" "numImages r" d t]
      by (simp add: emit_log_keeps poll_events_keeps)
  qed
  show ?thesis
    using swap launch bounds flight flight' loaded by auto
qed

theorem RunFull_swap_gated_witness:
  "RunFull_reach (good_rig 5) 3 100 3 2 (steady_ticks 3) (initial_state (good_rig 5))
     = Some first_dark_state
   \<and> RunFull_body (good_rig 5) 3 100 3 2 (steady_tick 3) first_dark_state
     = (Continue, second_light_state)
   \<and> currentTextureIndex second_light_state \<noteq> currentTextureIndex first_dark_state
   \<and> count_list (trace first_dark_state) LaunchMoveStage
       < count_list (trace second_light_state) LaunchMoveStage
   \<and> 100 < now (steady_tick 3) - darkTimeStart first_dark_state
   \<and> currentTextureIndex second_light_state = 1
   \<and> currentImageIndex second_light_state = 1
   \<and> last_load (trace second_light_state) 1 = Some (1, True)
   \<and> textures second_light_state ! 1 = Some 1
   \<and> in_flight (trace second_light_state) = 0
   \<and> in_flight (trace first_dark_state) = 0"
proof -
  have reach: "RunFull_reach (good_rig 5) 3 100 3 2 (steady_ticks 3) (initial_state (good_rig 5))
     = Some first_dark_state"
    by code_simp
  have body: "RunFull_body (good_rig 5) 3 100 3 2 (steady_tick 3) first_dark_state
     = (Continue, second_light_state)"
    by code_simp
  have swapped: "currentTextureIndex second_light_state \<noteq> currentTextureIndex first_dark_state"
    by (simp add: first_dark_state_def second_light_state_def)
  have launched: "count_list (trace first_dark_state) LaunchMoveStage
       < count_list (trace second_light_state) LaunchMoveStage"
    by (simp add: first_dark_state_def second_light_state_def)
  have now_active: "currentTextureIndex second_light_state = 1"
    "currentImageIndex second_light_state = 1"
    by (simp_all add: second_light_state_def)
  have last: "last_load (trace second_light_state) 1 = Some (1, True)"
    by (simp add: second_light_state_def last_load_def)
  note gate = RunFull_swap_gated [OF reach body]
  from gate swapped have a: "100 < now (steady_tick 3) - darkTimeStart first_dark_state
     \<and> load_made second_light_state (currentTextureIndex second_light_state)
         (currentImageIndex second_light_state)
     \<and> in_flight (trace second_light_state) = 0"
    by blast
  then have "load_made second_light_state 1 1"
    using now_active by simp
  then have held: "textures second_light_state ! 1 = Some 1"
    using last by (simp add: load_made_def)
  from gate launched have b: "in_flight (trace first_dark_state) = 0"
    by blast
  show ?thesis using reach body swapped launched a b now_active last held by blast
qed

text \<open>
  The claim as the specification words it fails when a load fails. From the state at the
  end of the first exposure, an iteration in which the load of the second image fails
  marks the image loaded, swaps the textures and turns to the light phase; the texture
  that becomes active was never loaded and does not hold the image now current.
\<close>

theorem RunFull_swap_after_failed_load_counterexample:
  "RunFull_reach (good_rig 5) 3 100 3 2 (steady_ticks 3) (initial_state (good_rig 5))
     = Some first_dark_state
   \<and> \<not> displayImage first_dark_state
   \<and> fst (RunFull_body (good_rig 5) 3 100 3 2 (failed_load_tick 3) first_dark_state) = Continue
   \<and> displayImage (snd (RunFull_body (good_rig 5) 3 100 3 2 (failed_load_tick 3) first_dark_state))
   \<and> currentTextureIndex
        (snd (RunFull_body (good_rig 5) 3 100 3 2 (failed_load_tick 3) first_dark_state)) = 1
   \<and> currentImageIndex
        (snd (RunFull_body (good_rig 5) 3 100 3 2 (failed_load_tick 3) first_dark_state)) = 1
   \<and> textures (snd (RunFull_body (good_rig 5) 3 100 3 2 (failed_load_tick 3) first_dark_state))
       = [Some 0, None]
   \<and> last_load
        (trace (snd (RunFull_body (good_rig 5) 3 100 3 2 (failed_load_tick 3) first_dark_state))) 1
       = Some (1, False)"
  by code_simp

subsection \<open>The abort\<close>

lemma shutdown_events_light:
  "e = Home \<or> e = SMC100CClose \<Longrightarrow>
   e \<in> set (trace (RunFull_light m ex l t s)) \<longleftrightarrow> e \<in> set (trace s)"
  by (auto simp: RunFull_light_def show_image_def emit_def Let_def)

lemma shutdown_events_poll:
  "e = Home \<or> e = SMC100CClose \<Longrightarrow> e \<in> set (trace (poll_events t s)) \<longleftrightarrow> e \<in> set (trace s)"
  by (auto simp: poll_events_def emit_def)

lemma shutdown_events_dark_work:
  assumes "e = Home \<or> e = SMC100CClose"
  shows "e \<in> set (trace (dark_work n t s)) \<longleftrightarrow> e \<in> set (trace s)"
proof -
  have a: "e \<in> set (trace (begin_dark s)) \<longleftrightarrow> e \<in> set (trace s)" for s
    using assms by (auto simp: begin_dark_def emit_def Let_def)
  have b: "e \<in> set (trace (launch_stage_move s)) \<longleftrightarrow> e \<in> set (trace s)" for s
    using assms by (auto simp: launch_stage_move_def emit_def)
  have c: "e \<in> set (trace (load_next_image n t s)) \<longleftrightarrow> e \<in> set (trace s)" for s
    using assms by (auto simp: load_next_image_def emit_def)
  have d: "e \<in> set (trace (poll_stage_move t s)) \<longleftrightarrow> e \<in> set (trace s)" for s
    using assms by (auto simp: poll_stage_move_def emit_def)
  show ?thesis by (simp add: dark_work_def a b c d)
qed

lemma shutdown_events_dark:
  assumes "e = Home \<or> e = SMC100CClose"
  shows "e \<in> set (trace (RunFull_dark n d t s)) \<longleftrightarrow> e \<in> set (trace s)"
proof -
  have "e \<in> set (trace (swap_buffers s)) \<longleftrightarrow> e \<in> set (trace s)" for s
    using assms by (auto simp: swap_buffers_def emit_def)
  then show ?thesis
    using shutdown_events_dark_work [OF assms] by (simp add: RunFull_dark_def Let_def)
qed

lemma RunFull_body_no_shutdown:
  assumes "RunFull_body r m d e l t s = (ex, s')"
    and "Home \<notin> set (trace s)" and "SMC100CClose \<notin> set (trace s)"
  shows "Home \<notin> set (trace s') \<and> SMC100CClose \<notin> set (trace s')"
  using assms(1)
proof (cases rule: RunFull_body_cases)
  case abort
  then show ?thesis
    using assms(2,3) by (simp add: emit_log_keeps shutdown_events_poll)
next
  case (light es)
  then show ?thesis
    using assms(2,3) by (simp add: emit_log_keeps shutdown_events_poll shutdown_events_light)
next
  case (dark es)
  then show ?thesis
    using assms(2,3) by (simp add: emit_log_keeps shutdown_events_poll shutdown_events_dark)
qed

lemma RunFull_loop_abort:
  assumes "RunFull_loop r m d e l ticks s = Some (Aborted s')"
    and "Home \<notin> set (trace s)" and "SMC100CClose \<notin> set (trace s)"
  shows "Home \<notin> set (trace s') \<and> SMC100CClose \<notin> set (trace s')
         \<and> (\<exists>tr. trace s' = tr @ [Log ''Run Full aborted.''])"
  using assms
proof (induction ticks arbitrary: s)
  case Nil
  then show ?case by (simp split: if_splits)
next
  case (Cons t ticks)
  obtain ex s1 where b: "RunFull_body r m d e l t s = (ex, s1)"
    by (cases "RunFull_body r m d e l t s")
  have keep: "Home \<notin> set (trace s1) \<and> SMC100CClose \<notin> set (trace s1)"
    using b Cons.prems(2,3) by (rule RunFull_body_no_shutdown)
  show ?case
  proof (cases ex)
    case Continue
    then have "RunFull_loop r m d e l ticks s1 = Some (Aborted s')"
      using Cons.prems(1) b by (simp split: if_splits)
    then show ?thesis using Cons.IH keep by blast
  next
    case Break
    then show ?thesis using Cons.prems(1) b by (simp split: if_splits)
  next
    case Return
    then have same: "s' = s1" using Cons.prems(1) b by (simp split: if_splits)
    from b have "\<exists>tr. trace s1 = tr @ [Log ''Run Full aborted.'']"
    proof (cases rule: RunFull_body_cases)
      case abort
      then show ?thesis by (simp add: emit_log_keeps)
    next
      case (light es)
      then show ?thesis using Return by simp
    next
      case (dark es)
      then show ?thesis using Return by simp
    qed
    then show ?thesis using keep same by simp
  qed
qed

lemma RunFull_abort_no_shutdown:
  assumes "RunFull r m d e l ticks = Some (Aborted s')"
  shows "Home \<notin> set (trace s') \<and> SMC100CClose \<notin> set (trace s')
         \<and> (\<exists>tr. trace s' = tr @ [Log ''Run Full aborted.''])"
proof -
  have "RunFull_loop r m d e l ticks (initial_state r) = Some (Aborted s')"
    using assms by (simp add: RunFull_def split: if_splits)
  moreover have "Home \<notin> set (trace (initial_state r))" "SMC100CClose \<notin> set (trace (initial_state r))"
    by (simp_all add: initial_state_def)
  ultimately show ?thesis by (rule RunFull_loop_abort)
qed

text \<open>
  Claim C1, at a failing input. Five images, three frames of exposure for the first two
  layers and five afterwards, a dark time of 100 ms; the abort flag is set while the
  third layer is being exposed. The run ends by the abort. Its controller and stage-task
  effects are those of the first two layers and nothing else: after the abort no stage
  move is launched, which is what the claim says, but the final position is not queried,
  no home command is sent and the connection is not closed, which the claim requires.
  The last effect of the run is the log line of the abort. (The lemma before this shows
  the same for every run that the abort ends.)
\<close>

theorem RunFull_abort_skips_shutdown:
  "map_option is_aborted (RunFull (good_rig 5) 5 100 3 2 (steady_ticks 9 @ [abort_tick 9000]))
     = Some True
   \<and> map_option stage_events (RunFull (good_rig 5) 5 100 3 2 (steady_ticks 9 @ [abort_tick 9000]))
     = Some [GetPosition, LaunchMoveStage, JoinMoveStage,
             GetPosition, LaunchMoveStage, JoinMoveStage]
   \<and> map_option (last \<circ> outcome_trace)
         (RunFull (good_rig 5) 5 100 3 2 (steady_ticks 9 @ [abort_tick 9000]))
     = Some (Log ''Run Full aborted.'')"
  by code_simp

subsection \<open>The dynamic run\<close>

text \<open>
  Claim C2, at a failing input: the settings table of the specification's scenario, three
  layers of (10, 5, 100) and two layers of (20, 8, 150), in the steady environment. With
  five images the run completes four light/dark cycles under the first group before the
  settings of the second group are applied; with nine images it completes four under the
  first group and three under the second. The claim says three and two.
\<close>

theorem RunFullDynamic_extra_layer:
  "map_option layer_events
     (RunFullDynamic (good_rig 5)
        [(\<lparr>intensity = 10, exposureTime = 5, darkTime = 100\<rparr>, 3),
         (\<lparr>intensity = 20, exposureTime = 8, darkTime = 150\<rparr>, 2)]
        (steady_ticks 60))
   = Some [ApplySettings \<lparr>intensity = 10, exposureTime = 5, darkTime = 100\<rparr>,
           PrintedLayer \<lparr>intensity = 10, exposureTime = 5, darkTime = 100\<rparr>,
           PrintedLayer \<lparr>intensity = 10, exposureTime = 5, darkTime = 100\<rparr>,
           PrintedLayer \<lparr>intensity = 10, exposureTime = 5, darkTime = 100\<rparr>,
           PrintedLayer \<lparr>intensity = 10, exposureTime = 5, darkTime = 100\<rparr>,
           ApplySettings \<lparr>intensity = 20, exposureTime = 8, darkTime = 150\<rparr>]
   \<and> map_option layer_events
     (RunFullDynamic (good_rig 9)
        [(\<lparr>intensity = 10, exposureTime = 5, darkTime = 100\<rparr>, 3),
         (\<lparr>intensity = 20, exposureTime = 8, darkTime = 150\<rparr>, 2)]
        (steady_ticks 60))
   = Some [ApplySettings \<lparr>intensity = 10, exposureTime = 5, darkTime = 100\<rparr>,
           PrintedLayer \<lparr>intensity = 10, exposureTime = 5, darkTime = 100\<rparr>,
           PrintedLayer \<lparr>intensity = 10, exposureTime = 5, darkTime = 100\<rparr>,
           PrintedLayer \<lparr>intensity = 10, exposureTime = 5, darkTime = 100\<rparr>,
           PrintedLayer \<lparr>intensity = 10, exposureTime = 5, darkTime = 100\<rparr>,
           ApplySettings \<lparr>intensity = 20, exposureTime = 8, darkTime = 150\<rparr>,
           PrintedLayer \<lparr>intensity = 20, exposureTime = 8, darkTime = 150\<rparr>,
           PrintedLayer \<lparr>intensity = 20, exposureTime = 8, darkTime = 150\<rparr>,
           PrintedLayer \<lparr>intensity = 20, exposureTime = 8, darkTime = 150\<rparr>]"
  by code_simp

end
